theory Spec2Isabelle
  imports Main "HOL-Library.Word" "HOL-Library.Char_ord" "HOL-Library.List_Lexorder"
    "HOL-Library.AList"
begin

unbundle bit_operations_syntax

section \<open>The federation synchronisation engine: model\<close>

type_synonym bigint = "64 word"
type_synonym integer32 = "32 word"

subsection \<open>Record keys: \<open>generate_tid()\<close>\<close>

text \<open>
  \<^verbatim>\<open>supabase/migrations_archive/20251221160000_add_generate_tid_function.sql\<close>.
  \<open>timestamp_us\<close> is a \<open>BIGINT\<close> and \<open>clock_id\<close> an \<open>INTEGER\<close>; both are read from
  the clock and from \<open>random()\<close> in the declaration block and are the inputs of the
  model. \<open>BIGINT << n\<close> does not check for overflow, \<open>BIGINT >> n\<close> keeps the sign.
\<close>

definition b32_chars :: string where
  "b32_chars = ''234567abcdefghijklmnopqrstuvwxyz''"

text \<open>\<open>substr(s, n, 1)\<close>: positions count from 1; outside the string the result is empty.\<close>

definition substr1 :: "string \<Rightarrow> int \<Rightarrow> string" where
  "substr1 s n = (if 1 \<le> n \<and> n \<le> int (length s) then [s ! nat (n - 1)] else [])"

fun tid_loop :: "nat \<Rightarrow> bigint \<Rightarrow> string \<Rightarrow> string" where
  "tid_loop 0 combined result = result"
| "tid_loop (Suc i) combined result =
     tid_loop i (signed_drop_bit 5 combined)
       (substr1 b32_chars (sint (ucast (combined AND 31) :: integer32) + 1) @ result)"

definition generate_tid :: "bigint \<Rightarrow> integer32 \<Rightarrow> string" where
  "generate_tid timestamp_us clock_id =
     tid_loop 13 (push_bit 10 timestamp_us OR scast clock_id) []"

text \<open>
  The digits of an integer in base 32, most significant first, written in the alphabet:
  what the loop computes (\<open>tid_loop_enc\<close> below), used to compare identifiers.
\<close>

fun enc :: "nat \<Rightarrow> int \<Rightarrow> string" where
  "enc 0 x = []"
| "enc (Suc n) x = enc n (x div 32) @ [b32_chars ! nat (x mod 32)]"

subsection \<open>Tables\<close>

text \<open>
  The columns the staging triggers read and write. A \<open>NULL\<close> is \<open>None\<close>; a \<open>UUID\<close> is a
  number; a table with a primary key \<open>id\<close> is a map from it. The outbox
  (\<open>federation_queue\<close>) is the list of its rows. Its \<open>CREATE TABLE\<close> is not in the
  migrations: the defaults of the columns an \<open>INSERT\<close> leaves out (\<open>attempts\<close>,
  \<open>last_error\<close>, \<open>created_at\<close>) and the error the table raises for a proposed row (a
  constraint of its declaration) are parameters of the environment of a call, next to
  the clock and the random values. The unique index on
  \<open>(record_type, record_id, operation)\<close> is the one the \<open>ON CONFLICT\<close> clauses of the
  triggers name: PostgreSQL accepts such a clause only where the index exists.
\<close>

type_synonym uuid = nat
type_synonym timestamptz = int

datatype json = JNull | JNum int | JStr string | JArr "json list" | JObj "(string \<times> json) list"

record profile_row =
  profile_did :: "string option"
  profile_handle :: "string option"

record post_row =
  post_id :: uuid
  post_user_id :: uuid
  post_rkey :: "string option"
  post_at_uri :: "string option"
  post_at_cid :: "string option"
  post_content :: "string option"
  post_created_at :: "timestamptz option"
  post_langs :: "string list option"
  post_facets :: "json option"
  post_thread_parent_id :: "uuid option"
  post_thread_root_id :: "uuid option"
  post_media_urls :: "string list option"

record like_row =
  like_id :: uuid
  like_user_id :: uuid
  like_post_id :: "uuid option"
  like_rkey :: "string option"
  like_at_uri :: "string option"
  like_subject_uri :: "string option"
  like_subject_cid :: "string option"
  like_created_at :: "timestamptz option"

record repost_row =
  repost_id :: uuid
  repost_user_id :: uuid
  repost_post_id :: "uuid option"
  repost_rkey :: "string option"
  repost_at_uri :: "string option"
  repost_subject_uri :: "string option"
  repost_subject_cid :: "string option"
  repost_created_at :: "timestamptz option"

record follow_row =
  follow_id :: uuid
  follow_follower_id :: uuid
  follow_following_id :: "uuid option"
  follow_rkey :: "string option"
  follow_at_uri :: "string option"
  follow_subject_did :: "string option"
  follow_created_at :: "timestamptz option"

record fq_row =
  fq_record_type :: string
  fq_record_id :: uuid
  fq_user_did :: "string option"
  fq_collection :: string
  fq_rkey :: "string option"
  fq_at_uri :: "string option"
  fq_record_data :: "json option"
  fq_operation :: string
  fq_status :: string
  fq_attempts :: int
  fq_last_error :: "string option"
  fq_created_at :: timestamptz

record db =
  profiles :: "uuid \<rightharpoonup> profile_row"
  posts :: "uuid \<rightharpoonup> post_row"
  likes :: "uuid \<rightharpoonup> like_row"
  reposts :: "uuid \<rightharpoonup> repost_row"
  follows :: "uuid \<rightharpoonup> follow_row"
  federation_queue :: "fq_row list"

record env =
  now :: timestamptz
  gen_random_base64 :: string
  clock_timestamp_us :: bigint
  random_clock_id :: integer32
  to_char_utc :: "timestamptz \<Rightarrow> string"
  fq_default_attempts :: int
  fq_default_last_error :: "string option"
  fq_default_created_at :: timestamptz
  fq_insert_error :: "fq_row \<Rightarrow> string option"

text \<open>\<open>REPLACE(s, c, t)\<close> for a one-character \<open>c\<close>.\<close>

definition replace_char :: "string \<Rightarrow> char \<Rightarrow> string \<Rightarrow> string" where
  "replace_char s c t = concat (map (\<lambda>x. if x = c then t else [x]) s)"

text \<open>
  \<open>jsonb || jsonb\<close>: two objects are merged, the right one winning on a shared key;
  otherwise both sides are taken as arrays and concatenated. \<open>jsonb -> key\<close> reads a field.
\<close>

fun jsonb_elems :: "json \<Rightarrow> json list" where
  "jsonb_elems (JArr xs) = xs"
| "jsonb_elems v = [v]"

fun jsonb_concat :: "json \<Rightarrow> json \<Rightarrow> json" where
  "jsonb_concat (JObj a) (JObj b) = JObj (fold (\<lambda>(k, v). AList.update k v) b a)"
| "jsonb_concat x y = JArr (jsonb_elems x @ jsonb_elems y)"

fun jsonb_get :: "json \<Rightarrow> string \<Rightarrow> json option" where
  "jsonb_get (JObj kvs) k = map_of kvs k"
| "jsonb_get _ k = None"

text \<open>\<open>SELECT did FROM profiles WHERE id = u\<close>; no row leaves the variable \<open>NULL\<close>.\<close>

definition did_of :: "db \<Rightarrow> uuid \<Rightarrow> string option" where
  "did_of d u = (case profiles d u of None \<Rightarrow> None | Some p \<Rightarrow> profile_did p)"

text \<open>\<open>SELECT at_uri, at_cid FROM posts WHERE id = pid\<close>\<close>

definition at_ref_of :: "db \<Rightarrow> uuid option \<Rightarrow> string option \<times> string option" where
  "at_ref_of d pid =
     (case pid of None \<Rightarrow> (None, None)
      | Some i \<Rightarrow> (case posts d i of None \<Rightarrow> (None, None)
                   | Some p \<Rightarrow> (post_at_uri p, post_at_cid p)))"

definition fq_key :: "fq_row \<Rightarrow> string \<times> uuid \<times> string" where
  "fq_key r = (fq_record_type r, fq_record_id r, fq_operation r)"

text \<open>
  The row an \<open>INSERT INTO federation_queue (record_type, record_id, user_did, collection,
  rkey, at_uri, record_data, operation, status)\<close> proposes.
\<close>

definition new_fq_row ::
  "env \<Rightarrow> string \<Rightarrow> uuid \<Rightarrow> string option \<Rightarrow> string \<Rightarrow> string option \<Rightarrow> string option
     \<Rightarrow> json option \<Rightarrow> string \<Rightarrow> string \<Rightarrow> fq_row" where
  "new_fq_row e rt rid did coll rk uri data oper st =
     \<lparr>fq_record_type = rt, fq_record_id = rid, fq_user_did = did, fq_collection = coll,
      fq_rkey = rk, fq_at_uri = uri, fq_record_data = data, fq_operation = oper,
      fq_status = st, fq_attempts = fq_default_attempts e,
      fq_last_error = fq_default_last_error e, fq_created_at = fq_default_created_at e\<rparr>"

text \<open>
  \<open>INSERT INTO federation_queue ... ON CONFLICT (record_type, record_id, operation) DO UPDATE
  SET [record_data = EXCLUDED.record_data,] status = 'pending', attempts = 0,
  last_error = NULL, created_at = NOW()\<close>. The create triggers overwrite \<open>record_data\<close>
  (\<open>set_data\<close>), the delete triggers do not.
\<close>

definition fq_upsert :: "env \<Rightarrow> bool \<Rightarrow> fq_row \<Rightarrow> fq_row list \<Rightarrow> string + fq_row list" where
  "fq_upsert e set_data row q =
     (case fq_insert_error e row of
        Some err \<Rightarrow> Inl err
      | None \<Rightarrow>
          if fq_key row \<in> fq_key ` set q
          then Inr (map (\<lambda>r. if fq_key r = fq_key row
                               then r\<lparr>fq_record_data := (if set_data then fq_record_data row
                                                          else fq_record_data r),
                                      fq_status := ''pending'', fq_attempts := 0,
                                      fq_last_error := None, fq_created_at := now e\<rparr>
                               else r) q)
          else Inr (q @ [row]))"

text \<open>
  The same row with \<open>created_at\<close> given, for an \<open>INSERT\<close> that lists the column:
  \<open>INSERT INTO federation_queue (operation, record_type, record_id, collection, rkey,
  user_did, at_uri, [record_data,] status, created_at) VALUES (..., NOW())\<close>.
\<close>

definition new_fq_row_at ::
  "env \<Rightarrow> string \<Rightarrow> uuid \<Rightarrow> string option \<Rightarrow> string \<Rightarrow> string option \<Rightarrow> string option
     \<Rightarrow> json option \<Rightarrow> string \<Rightarrow> string \<Rightarrow> timestamptz \<Rightarrow> fq_row" where
  "new_fq_row_at e rt rid did coll rk uri data oper st created =
     (new_fq_row e rt rid did coll rk uri data oper st)\<lparr>fq_created_at := created\<rparr>"

text \<open>
  An \<open>INSERT INTO federation_queue\<close> with no \<open>ON CONFLICT\<close> clause: a row whose key is
  already in the table violates the unique index, and the statement raises
  \<open>unique_violation\<close>.
\<close>

definition fq_insert :: "env \<Rightarrow> fq_row \<Rightarrow> fq_row list \<Rightarrow> string + fq_row list" where
  "fq_insert e row q =
     (case fq_insert_error e row of
        Some err \<Rightarrow> Inl err
      | None \<Rightarrow>
          if fq_key row \<in> fq_key ` set q
          then Inl ''duplicate key value violates unique constraint''
          else Inr (q @ [row]))"

text \<open>
  A block with \<open>EXCEPTION WHEN OTHERS THEN ... RETURN row\<close>: an error raised in the block
  undoes what the block wrote to the database, and the handler returns the row.
\<close>

definition exception_when_others :: "string + 'a \<Rightarrow> 'a \<Rightarrow> string + 'a" where
  "exception_when_others block handler = (case block of Inl err \<Rightarrow> Inr handler | Inr r \<Rightarrow> Inr r)"

subsection \<open>Record Builder: the staging triggers\<close>

text \<open>
  A trigger function takes the environment of the call, the database and the row (\<open>NEW\<close>
  or \<open>OLD\<close>); it returns the row and the database it leaves, or \<open>Inl\<close> the error it raised:
  an error that leaves a trigger function aborts the statement that fired it.
  \<open>RAISE NOTICE\<close> and \<open>RAISE WARNING\<close> only log and are left out.

  The post and follow triggers (\<^verbatim>\<open>queue_post_for_federation\<close>,
  \<^verbatim>\<open>queue_post_deletion_for_federation\<close>, \<^verbatim>\<open>queue_follow_for_federation\<close>,
  \<^verbatim>\<open>queue_unfollow_for_federation\<close>) are those of the migration "Comprehensive Fix: All
  federation functions search_path + CID lookup", which defines all eight functions. The
  later version of \<^verbatim>\<open>queue_post_for_federation\<close> that embeds the quoted post ends with the
  same \<open>INSERT ... ON CONFLICT\<close> and has no exception handler either. The like and repost
  triggers were replaced after that migration and are modelled as replaced.
\<close>

text \<open>\<open>REPLACE(REPLACE(REPLACE(encode(gen_random_bytes(10), 'base64'), '/', '_'), '+', '-'), '=', '')\<close>\<close>

definition random_rkey :: "env \<Rightarrow> string" where
  "random_rkey e =
     replace_char (replace_char (replace_char (gen_random_base64 e) CHR ''/'' ''_'')
       CHR ''+'' ''-'') CHR ''='' []"

text \<open>\<open>to_char(COALESCE(created_at, NOW()) AT TIME ZONE 'UTC', ...)\<close>\<close>

definition created_at_text :: "env \<Rightarrow> timestamptz option \<Rightarrow> json" where
  "created_at_text e t = JStr (to_char_utc e (case t of Some c \<Rightarrow> c | None \<Rightarrow> now e))"

text \<open>\<open>jsonb_build_object('uri', uri, 'cid', cid)\<close>\<close>

definition at_ref_json :: "string \<Rightarrow> string \<Rightarrow> json" where
  "at_ref_json uri cid = JObj [(''uri'', JStr uri), (''cid'', JStr cid)]"

text \<open>The record \<open>queue_post_for_federation\<close> builds in \<open>v_record_data\<close>.\<close>

definition post_record_data :: "env \<Rightarrow> db \<Rightarrow> post_row \<Rightarrow> json" where
  "post_record_data e d NEW =
     (let base = JObj [(''$type'', JStr ''app.bsky.feed.post''),
                       (''text'', JStr (case post_content NEW of Some c \<Rightarrow> c | None \<Rightarrow> [])),
                       (''createdAt'', created_at_text e (post_created_at NEW)),
                       (''langs'', JArr (map JStr (case post_langs NEW of Some l \<Rightarrow> l
                                                    | None \<Rightarrow> [''en''])))];
          with_facets = (case post_facets NEW of
                           Some f \<Rightarrow> jsonb_concat base (JObj [(''facets'', f)])
                         | None \<Rightarrow> base);
          with_reply =
            (case post_thread_parent_id NEW of
               None \<Rightarrow> with_facets
             | Some parent \<Rightarrow>
                 (let (v_parent_uri, v_parent_cid) = at_ref_of d (Some parent);
                      (v_root_uri, v_root_cid) =
                        (if post_thread_root_id NEW \<noteq> None
                            \<and> post_thread_root_id NEW \<noteq> Some parent
                         then at_ref_of d (post_thread_root_id NEW)
                         else (v_parent_uri, v_parent_cid))
                  in case (v_parent_uri, v_parent_cid) of
                       (Some pu, Some pc) \<Rightarrow>
                         jsonb_concat with_facets
                           (JObj [(''reply'',
                              JObj [(''parent'', at_ref_json pu pc),
                                    (''root'', at_ref_json
                                       (case v_root_uri of Some u \<Rightarrow> u | None \<Rightarrow> pu)
                                       (case v_root_cid of Some c \<Rightarrow> c | None \<Rightarrow> pc))])])
                     | _ \<Rightarrow> with_facets))
      in case post_media_urls NEW of
           None \<Rightarrow> with_reply
         | Some urls \<Rightarrow>
             if urls = [] then with_reply
             else jsonb_concat with_reply
                    (JObj [(''embed'',
                       JObj [(''$type'', JStr ''app.bsky.embed.images''),
                             (''images'',
                                JArr (map (\<lambda>url.
                                  JObj [(''image'',
                                           JObj [(''$type'', JStr ''blob''),
                                                 (''ref'', JObj [(''$link'', JStr url)]),
                                                 (''mimeType'', JStr ''image/jpeg''),
                                                 (''size'', JNum 0)]),
                                        (''alt'', JStr [])]) urls))])]))"

definition queue_post_for_federation ::
  "env \<Rightarrow> db \<Rightarrow> post_row \<Rightarrow> string + (post_row \<times> db)" where
  "queue_post_for_federation e d NEW =
     (case did_of d (post_user_id NEW) of
        None \<Rightarrow> Inr (NEW, d)
      | Some v_user_did \<Rightarrow>
          (let v_rkey = replace_char
                          (case post_rkey NEW of
                             Some k \<Rightarrow> k
                           | None \<Rightarrow> replace_char (replace_char (gen_random_base64 e)
                                        CHR ''/'' ''_'') CHR ''+'' ''-'')
                          CHR ''='' [];
               v_at_uri = ''at://'' @ v_user_did @ ''/app.bsky.feed.post/'' @ v_rkey;
               d1 = (case posts d (post_id NEW) of
                       None \<Rightarrow> d
                     | Some p \<Rightarrow>
                         if post_rkey p = None \<or> post_at_uri p = None
                         then d\<lparr>posts := (posts d)(post_id NEW \<mapsto>
                                  p\<lparr>post_rkey := Some v_rkey, post_at_uri := Some v_at_uri\<rparr>)\<rparr>
                         else d);
               row = new_fq_row e
                       (if post_thread_parent_id NEW \<noteq> None then ''reply'' else ''post'')
                       (post_id NEW) (Some v_user_did) ''app.bsky.feed.post'' (Some v_rkey)
                       (Some v_at_uri) (Some (post_record_data e d1 NEW)) ''create'' ''pending''
           in case fq_upsert e True row (federation_queue d1) of
                Inl err \<Rightarrow> Inl err
              | Inr q \<Rightarrow> Inr (NEW, d1\<lparr>federation_queue := q\<rparr>)))"

definition queue_post_deletion_for_federation ::
  "env \<Rightarrow> db \<Rightarrow> post_row \<Rightarrow> string + (post_row \<times> db)" where
  "queue_post_deletion_for_federation e d OLD =
     (case post_at_uri OLD of
        None \<Rightarrow> Inr (OLD, d)
      | Some uri \<Rightarrow>
          (case did_of d (post_user_id OLD) of
             None \<Rightarrow> Inr (OLD, d)
           | Some did \<Rightarrow>
               (case fq_upsert e False
                       (new_fq_row e
                          (if post_thread_parent_id OLD \<noteq> None then ''reply'' else ''post'')
                          (post_id OLD) (Some did) ''app.bsky.feed.post'' (post_rkey OLD)
                          (Some uri) None ''delete'' ''pending'')
                       (federation_queue d) of
                  Inl err \<Rightarrow> Inl err
                | Inr q \<Rightarrow> Inr (OLD, d\<lparr>federation_queue := q\<rparr>))))"

text \<open>
  The subject of a like or a repost, as both triggers resolve it: \<open>subject_uri\<close> and
  \<open>subject_cid\<close> of the row, and, if either is \<open>NULL\<close>, both from the \<open>posts\<close> table instead.
\<close>

definition subject_of ::
  "db \<Rightarrow> string option \<Rightarrow> string option \<Rightarrow> uuid option \<Rightarrow> string option \<times> string option" where
  "subject_of d subject_uri subject_cid pid =
     (if subject_uri = None \<or> subject_cid = None then at_ref_of d pid
      else (subject_uri, subject_cid))"

text \<open>The record a like or a repost carries: its type, the subject reference, the time.\<close>

definition subject_record_data ::
  "env \<Rightarrow> string \<Rightarrow> string \<Rightarrow> string \<Rightarrow> timestamptz option \<Rightarrow> json" where
  "subject_record_data e type uri cid created =
     JObj [(''$type'', JStr type),
           (''subject'', at_ref_json uri cid),
           (''createdAt'', created_at_text e created)]"

text \<open>
  The like, unlike, repost and unrepost triggers as
  \<^verbatim>\<open>supabase/migrations_archive/20251221171000_fix_federation_queue_columns.sql\<close> leaves
  them, the last migration that defines them: the record key of a new like or repost comes
  from \<open>generate_tid()\<close>, the \<open>INSERT\<close> has no \<open>ON CONFLICT\<close> clause, and the body is a
  block with \<open>EXCEPTION WHEN OTHERS THEN RAISE WARNING ...; RETURN NEW\<close> (or \<open>OLD\<close>).
\<close>

definition queue_like_for_federation ::
  "env \<Rightarrow> db \<Rightarrow> like_row \<Rightarrow> string + (like_row \<times> db)" where
  "queue_like_for_federation e d NEW =
     exception_when_others
       (case did_of d (like_user_id NEW) of
          None \<Rightarrow> Inr (NEW, d)
        | Some v_user_did \<Rightarrow>
            (let (v_post_at_uri, v_post_at_cid) =
                   subject_of d (like_subject_uri NEW) (like_subject_cid NEW) (like_post_id NEW)
             in case v_post_at_uri of
                  None \<Rightarrow> Inr (NEW, d)
                | Some uri \<Rightarrow>
                    (case v_post_at_cid of
                       None \<Rightarrow> Inr (NEW, d)
                     | Some cid \<Rightarrow>
                         (let v_rkey = (case like_rkey NEW of
                                          Some k \<Rightarrow> k
                                        | None \<Rightarrow> generate_tid (clock_timestamp_us e)
                                                    (random_clock_id e));
                              v_at_uri = ''at://'' @ v_user_did @ ''/app.bsky.feed.like/'' @ v_rkey;
                              d1 = (case likes d (like_id NEW) of
                                      None \<Rightarrow> d
                                    | Some l \<Rightarrow>
                                        d\<lparr>likes := (likes d)(like_id NEW \<mapsto>
                                             l\<lparr>like_rkey := Some v_rkey,
                                               like_at_uri := Some v_at_uri,
                                               like_subject_uri := Some uri,
                                               like_subject_cid := Some cid\<rparr>)\<rparr>);
                              row = new_fq_row_at e ''like'' (like_id NEW) (Some v_user_did)
                                      ''app.bsky.feed.like'' (Some v_rkey) (Some v_at_uri)
                                      (Some (subject_record_data e ''app.bsky.feed.like'' uri cid
                                               (like_created_at NEW)))
                                      ''create'' ''pending'' (now e)
                          in case fq_insert e row (federation_queue d1) of
                               Inl err \<Rightarrow> Inl err
                             | Inr q \<Rightarrow> Inr (NEW, d1\<lparr>federation_queue := q\<rparr>)))))
       (NEW, d)"

definition queue_unlike_for_federation ::
  "env \<Rightarrow> db \<Rightarrow> like_row \<Rightarrow> string + (like_row \<times> db)" where
  "queue_unlike_for_federation e d OLD =
     exception_when_others
       (case like_rkey OLD of
          None \<Rightarrow> Inr (OLD, d)
        | Some v_rkey \<Rightarrow>
            (case like_at_uri OLD of
               None \<Rightarrow> Inr (OLD, d)
             | Some v_at_uri \<Rightarrow>
                 (case did_of d (like_user_id OLD) of
                    None \<Rightarrow> Inr (OLD, d)
                  | Some v_user_did \<Rightarrow>
                      (case fq_insert e
                              (new_fq_row_at e ''like'' (like_id OLD) (Some v_user_did)
                                 ''app.bsky.feed.like'' (Some v_rkey) (Some v_at_uri) None
                                 ''delete'' ''pending'' (now e))
                              (federation_queue d) of
                         Inl err \<Rightarrow> Inl err
                       | Inr q \<Rightarrow> Inr (OLD, d\<lparr>federation_queue := q\<rparr>)))))
       (OLD, d)"

definition queue_repost_for_federation ::
  "env \<Rightarrow> db \<Rightarrow> repost_row \<Rightarrow> string + (repost_row \<times> db)" where
  "queue_repost_for_federation e d NEW =
     exception_when_others
       (case did_of d (repost_user_id NEW) of
          None \<Rightarrow> Inr (NEW, d)
        | Some v_user_did \<Rightarrow>
            (let (v_post_at_uri, v_post_at_cid) =
                   subject_of d (repost_subject_uri NEW) (repost_subject_cid NEW)
                     (repost_post_id NEW)
             in case v_post_at_uri of
                  None \<Rightarrow> Inr (NEW, d)
                | Some uri \<Rightarrow>
                    (case v_post_at_cid of
                       None \<Rightarrow> Inr (NEW, d)
                     | Some cid \<Rightarrow>
                         (let v_rkey = (case repost_rkey NEW of
                                          Some k \<Rightarrow> k
                                        | None \<Rightarrow> generate_tid (clock_timestamp_us e)
                                                    (random_clock_id e));
                              v_at_uri = ''at://'' @ v_user_did @ ''/app.bsky.feed.repost/''
                                           @ v_rkey;
                              d1 = (case reposts d (repost_id NEW) of
                                      None \<Rightarrow> d
                                    | Some l \<Rightarrow>
                                        d\<lparr>reposts := (reposts d)(repost_id NEW \<mapsto>
                                             l\<lparr>repost_rkey := Some v_rkey,
                                               repost_at_uri := Some v_at_uri,
                                               repost_subject_uri := Some uri,
                                               repost_subject_cid := Some cid\<rparr>)\<rparr>);
                              row = new_fq_row_at e ''repost'' (repost_id NEW) (Some v_user_did)
                                      ''app.bsky.feed.repost'' (Some v_rkey) (Some v_at_uri)
                                      (Some (subject_record_data e ''app.bsky.feed.repost'' uri
                                               cid (repost_created_at NEW)))
                                      ''create'' ''pending'' (now e)
                          in case fq_insert e row (federation_queue d1) of
                               Inl err \<Rightarrow> Inl err
                             | Inr q \<Rightarrow> Inr (NEW, d1\<lparr>federation_queue := q\<rparr>)))))
       (NEW, d)"

definition queue_unrepost_for_federation ::
  "env \<Rightarrow> db \<Rightarrow> repost_row \<Rightarrow> string + (repost_row \<times> db)" where
  "queue_unrepost_for_federation e d OLD =
     exception_when_others
       (case repost_rkey OLD of
          None \<Rightarrow> Inr (OLD, d)
        | Some v_rkey \<Rightarrow>
            (case repost_at_uri OLD of
               None \<Rightarrow> Inr (OLD, d)
             | Some v_at_uri \<Rightarrow>
                 (case did_of d (repost_user_id OLD) of
                    None \<Rightarrow> Inr (OLD, d)
                  | Some v_user_did \<Rightarrow>
                      (case fq_insert e
                              (new_fq_row_at e ''repost'' (repost_id OLD) (Some v_user_did)
                                 ''app.bsky.feed.repost'' (Some v_rkey) (Some v_at_uri) None
                                 ''delete'' ''pending'' (now e))
                              (federation_queue d) of
                         Inl err \<Rightarrow> Inl err
                       | Inr q \<Rightarrow> Inr (OLD, d\<lparr>federation_queue := q\<rparr>)))))
       (OLD, d)"

text \<open>
  The unrepost trigger of
  \<^verbatim>\<open>supabase/migrations/20251221164000_fix_unrepost_trigger_with_logging.sql\<close>, the version
  before: it checks \<open>at_uri\<close> only and its insert has the \<open>ON CONFLICT\<close> clause, inside a
  block with \<open>EXCEPTION WHEN OTHERS THEN ... RETURN OLD\<close> ("Don't fail the delete, just log
  the error").
\<close>

definition queue_unrepost_for_federation_logged ::
  "env \<Rightarrow> db \<Rightarrow> repost_row \<Rightarrow> string + (repost_row \<times> db)" where
  "queue_unrepost_for_federation_logged e d OLD =
     exception_when_others
       (case repost_at_uri OLD of
          None \<Rightarrow> Inr (OLD, d)
        | Some uri \<Rightarrow>
            (case did_of d (repost_user_id OLD) of
               None \<Rightarrow> Inr (OLD, d)
             | Some v_user_did \<Rightarrow>
                 (case fq_upsert e False
                         (new_fq_row e ''repost'' (repost_id OLD) (Some v_user_did)
                            ''app.bsky.feed.repost'' (repost_rkey OLD) (Some uri) None
                            ''delete'' ''pending'')
                         (federation_queue d) of
                    Inl err \<Rightarrow> Inl err
                  | Inr q \<Rightarrow> Inr (OLD, d\<lparr>federation_queue := q\<rparr>))))
       (OLD, d)"

definition queue_follow_for_federation ::
  "env \<Rightarrow> db \<Rightarrow> follow_row \<Rightarrow> string + (follow_row \<times> db)" where
  "queue_follow_for_federation e d NEW =
     (case did_of d (follow_follower_id NEW) of
        None \<Rightarrow> Inr (NEW, d)
      | Some v_follower_did \<Rightarrow>
          (case (case follow_subject_did NEW of
                   Some s \<Rightarrow> Some s
                 | None \<Rightarrow> (case follow_following_id NEW of
                              None \<Rightarrow> None
                            | Some f \<Rightarrow> did_of d f)) of
             None \<Rightarrow> Inr (NEW, d)
           | Some v_following_did \<Rightarrow>
               (let v_rkey = (case follow_rkey NEW of Some k \<Rightarrow> k | None \<Rightarrow> random_rkey e);
                    v_at_uri = ''at://'' @ v_follower_did @ ''/app.bsky.graph.follow/'' @ v_rkey;
                    d1 = (case follows d (follow_id NEW) of
                            None \<Rightarrow> d
                          | Some f \<Rightarrow>
                              d\<lparr>follows := (follows d)(follow_id NEW \<mapsto>
                                   f\<lparr>follow_rkey := Some v_rkey,
                                     follow_at_uri := Some v_at_uri,
                                     follow_subject_did := Some v_following_did\<rparr>)\<rparr>);
                    row = new_fq_row e ''follow'' (follow_id NEW) (Some v_follower_did)
                            ''app.bsky.graph.follow'' (Some v_rkey) (Some v_at_uri)
                            (Some (JObj [(''$type'', JStr ''app.bsky.graph.follow''),
                                         (''subject'', JStr v_following_did),
                                         (''createdAt'',
                                            created_at_text e (follow_created_at NEW))]))
                            ''create'' ''pending''
                in case fq_upsert e True row (federation_queue d1) of
                     Inl err \<Rightarrow> Inl err
                   | Inr q \<Rightarrow> Inr (NEW, d1\<lparr>federation_queue := q\<rparr>))))"

definition queue_unfollow_for_federation ::
  "env \<Rightarrow> db \<Rightarrow> follow_row \<Rightarrow> string + (follow_row \<times> db)" where
  "queue_unfollow_for_federation e d OLD =
     (case follow_at_uri OLD of
        None \<Rightarrow> Inr (OLD, d)
      | Some uri \<Rightarrow>
          (case did_of d (follow_follower_id OLD) of
             None \<Rightarrow> Inr (OLD, d)
           | Some did \<Rightarrow>
               (case fq_upsert e False
                       (new_fq_row e ''follow'' (follow_id OLD) (Some did)
                          ''app.bsky.graph.follow'' (follow_rkey OLD) (Some uri) None
                          ''delete'' ''pending'')
                       (federation_queue d) of
                  Inl err \<Rightarrow> Inl err
                | Inr q \<Rightarrow> Inr (OLD, d\<lparr>federation_queue := q\<rparr>))))"

text \<open>
  A staging operation is one firing of one of the eight triggers; a sequence of them runs
  one after the other, each with the clock and the random bytes of its own call. A firing
  that raises aborts its statement and leaves the database as it was.
\<close>

datatype staging_op =
    PostInsert post_row | PostDelete post_row
  | LikeInsert like_row | LikeDelete like_row
  | RepostInsert repost_row | RepostDelete repost_row
  | FollowInsert follow_row | FollowDelete follow_row

fun stage :: "env \<Rightarrow> staging_op \<Rightarrow> db \<Rightarrow> string + db" where
  "stage e (PostInsert r) d = map_sum id snd (queue_post_for_federation e d r)"
| "stage e (PostDelete r) d = map_sum id snd (queue_post_deletion_for_federation e d r)"
| "stage e (LikeInsert r) d = map_sum id snd (queue_like_for_federation e d r)"
| "stage e (LikeDelete r) d = map_sum id snd (queue_unlike_for_federation e d r)"
| "stage e (RepostInsert r) d = map_sum id snd (queue_repost_for_federation e d r)"
| "stage e (RepostDelete r) d = map_sum id snd (queue_unrepost_for_federation e d r)"
| "stage e (FollowInsert r) d = map_sum id snd (queue_follow_for_federation e d r)"
| "stage e (FollowDelete r) d = map_sum id snd (queue_unfollow_for_federation e d r)"

fun stage_all :: "(env \<times> staging_op) list \<Rightarrow> db \<Rightarrow> db" where
  "stage_all [] d = d"
| "stage_all ((e, op) # ops) d =
     (case stage e op d of Inl err \<Rightarrow> stage_all ops d | Inr d' \<Rightarrow> stage_all ops d')"

text \<open>
  The key a staging operation writes under, and the condition under which its trigger
  returns before the insert (the \<open>RETURN NEW\<close>/\<open>RETURN OLD\<close> guards of the functions,
  collected): used to state what re-staging does.
\<close>

fun op_key :: "staging_op \<Rightarrow> string \<times> uuid \<times> string" where
  "op_key (PostInsert r) =
     (if post_thread_parent_id r \<noteq> None then ''reply'' else ''post'', post_id r, ''create'')"
| "op_key (PostDelete r) =
     (if post_thread_parent_id r \<noteq> None then ''reply'' else ''post'', post_id r, ''delete'')"
| "op_key (LikeInsert r) = (''like'', like_id r, ''create'')"
| "op_key (LikeDelete r) = (''like'', like_id r, ''delete'')"
| "op_key (RepostInsert r) = (''repost'', repost_id r, ''create'')"
| "op_key (RepostDelete r) = (''repost'', repost_id r, ''delete'')"
| "op_key (FollowInsert r) = (''follow'', follow_id r, ''create'')"
| "op_key (FollowDelete r) = (''follow'', follow_id r, ''delete'')"

fun declines :: "db \<Rightarrow> staging_op \<Rightarrow> bool" where
  "declines d (PostInsert r) = (did_of d (post_user_id r) = None)"
| "declines d (PostDelete r) = (post_at_uri r = None \<or> did_of d (post_user_id r) = None)"
| "declines d (LikeInsert r) =
     (did_of d (like_user_id r) = None
      \<or> fst (subject_of d (like_subject_uri r) (like_subject_cid r) (like_post_id r)) = None
      \<or> snd (subject_of d (like_subject_uri r) (like_subject_cid r) (like_post_id r)) = None)"
| "declines d (LikeDelete r) =
     (like_rkey r = None \<or> like_at_uri r = None \<or> did_of d (like_user_id r) = None)"
| "declines d (RepostInsert r) =
     (did_of d (repost_user_id r) = None
      \<or> fst (subject_of d (repost_subject_uri r) (repost_subject_cid r) (repost_post_id r)) = None
      \<or> snd (subject_of d (repost_subject_uri r) (repost_subject_cid r) (repost_post_id r)) = None)"
| "declines d (RepostDelete r) =
     (repost_rkey r = None \<or> repost_at_uri r = None \<or> did_of d (repost_user_id r) = None)"
| "declines d (FollowInsert r) =
     (did_of d (follow_follower_id r) = None
      \<or> (follow_subject_did r = None
          \<and> (case follow_following_id r of None \<Rightarrow> True | Some f \<Rightarrow> did_of d f = None)))"
| "declines d (FollowDelete r) = (follow_at_uri r = None \<or> did_of d (follow_follower_id r) = None)"

text \<open>
  The staging operations whose trigger writes with \<open>ON CONFLICT (record_type, record_id,
  operation) DO UPDATE\<close>: the post and follow triggers. The like and repost triggers
  write with a plain \<open>INSERT\<close> inside their exception block.
\<close>

fun on_conflict_update :: "staging_op \<Rightarrow> bool" where
  "on_conflict_update (PostInsert r) = True"
| "on_conflict_update (PostDelete r) = True"
| "on_conflict_update (FollowInsert r) = True"
| "on_conflict_update (FollowDelete r) = True"
| "on_conflict_update (LikeInsert r) = False"
| "on_conflict_update (LikeDelete r) = False"
| "on_conflict_update (RepostInsert r) = False"
| "on_conflict_update (RepostDelete r) = False"

definition fq_unique :: "fq_row list \<Rightarrow> bool" where
  "fq_unique q = distinct (map fq_key q)"

text \<open>The content hash a queue row carries for its subject: \<open>record_data -> 'subject' -> 'cid'\<close>.\<close>

definition fq_subject_cid :: "fq_row \<Rightarrow> json option" where
  "fq_subject_cid r =
     (case fq_record_data r of
        None \<Rightarrow> None
      | Some data \<Rightarrow> (case jsonb_get data ''subject'' of
                       None \<Rightarrow> None
                     | Some s \<Rightarrow> jsonb_get s ''cid''))"

definition carries_subject_cid :: "fq_row \<Rightarrow> bool" where
  "carries_subject_cid r = (case fq_subject_cid r of Some (JStr c) \<Rightarrow> True | _ \<Rightarrow> False)"

definition hashed_row :: "fq_row \<Rightarrow> bool" where
  "hashed_row r =
     ((fq_record_type r = ''like'' \<or> fq_record_type r = ''repost'')
        \<and> fq_operation r = ''create'' \<longrightarrow> carries_subject_cid r)"

definition subject_creates_hashed :: "fq_row list \<Rightarrow> bool" where
  "subject_creates_hashed q = list_all hashed_row q"

subsection \<open>A small database for the scenarios\<close>

text \<open>
  Alice (user 1) and Bob (user 2) both have a remote identity. Alice's post 10 is confirmed
  (it has its remote address and content hash); her post 11 is staged but not yet
  confirmed. Bob's like 100 of post 10 and Alice's post 10 were staged before and their
  delivery failed five times; Bob's like 101 of post 11, his repost 200 of post 10 and his
  follow 300 of Alice are not in the outbox.
\<close>

definition scenario_env :: env where
  "scenario_env =
     \<lparr>now = 1766332800000000, gen_random_base64 = ''q83vEjRWeJASNA=='',
      clock_timestamp_us = 1766332800000000, random_clock_id = 5,
      to_char_utc = (\<lambda>t. ''2025-12-21T16:00:00.000Z''),
      fq_default_attempts = 0, fq_default_last_error = None,
      fq_default_created_at = 1766332800000000, fq_insert_error = (\<lambda>r. None)\<rparr>"

definition failing_env :: env where
  "failing_env = scenario_env\<lparr>fq_insert_error := (\<lambda>r. Some ''insert into federation_queue failed'')\<rparr>"

definition alice :: profile_row where
  "alice = \<lparr>profile_did = Some ''did:plc:alice'', profile_handle = Some ''alice.cannect.space''\<rparr>"

definition bob :: profile_row where
  "bob = \<lparr>profile_did = Some ''did:plc:bob'', profile_handle = Some ''bob.cannect.space''\<rparr>"

definition hello_post :: post_row where
  "hello_post =
     \<lparr>post_id = 10, post_user_id = 1, post_rkey = Some ''3maj3nlms2227'',
      post_at_uri = Some ''at://did:plc:alice/app.bsky.feed.post/3maj3nlms2227'',
      post_at_cid = Some ''bafyreihello'', post_content = Some ''Hello'',
      post_created_at = Some 1766332800000000, post_langs = None, post_facets = None,
      post_thread_parent_id = None, post_thread_root_id = None, post_media_urls = None\<rparr>"

definition unconfirmed_post :: post_row where
  "unconfirmed_post =
     \<lparr>post_id = 11, post_user_id = 1, post_rkey = Some ''3maj3nlms2228'',
      post_at_uri = Some ''at://did:plc:alice/app.bsky.feed.post/3maj3nlms2228'',
      post_at_cid = None, post_content = Some ''Again'',
      post_created_at = Some 1766332800000001, post_langs = None, post_facets = None,
      post_thread_parent_id = None, post_thread_root_id = None, post_media_urls = None\<rparr>"

definition bob_like :: like_row where
  "bob_like =
     \<lparr>like_id = 100, like_user_id = 2, like_post_id = Some 10, like_rkey = Some ''3maj4aaaaaaaa'',
      like_at_uri = Some ''at://did:plc:bob/app.bsky.feed.like/3maj4aaaaaaaa'',
      like_subject_uri = Some ''at://did:plc:alice/app.bsky.feed.post/3maj3nlms2227'',
      like_subject_cid = Some ''bafyreihello'', like_created_at = Some 1766332800000002\<rparr>"

definition early_like :: like_row where
  "early_like =
     \<lparr>like_id = 101, like_user_id = 2, like_post_id = Some 11, like_rkey = None,
      like_at_uri = None, like_subject_uri = None, like_subject_cid = None,
      like_created_at = Some 1766332800000003\<rparr>"

definition bob_repost :: repost_row where
  "bob_repost =
     \<lparr>repost_id = 200, repost_user_id = 2, repost_post_id = Some 10,
      repost_rkey = Some ''3maj4bbbbbbbb'',
      repost_at_uri = Some ''at://did:plc:bob/app.bsky.feed.repost/3maj4bbbbbbbb'',
      repost_subject_uri = None, repost_subject_cid = None,
      repost_created_at = Some 1766332800000004\<rparr>"

definition failed_like_entry :: fq_row where
  "failed_like_entry =
     \<lparr>fq_record_type = ''like'', fq_record_id = 100, fq_user_did = Some ''did:plc:bob'',
      fq_collection = ''app.bsky.feed.like'', fq_rkey = Some ''3maj4aaaaaaaa'',
      fq_at_uri = Some ''at://did:plc:bob/app.bsky.feed.like/3maj4aaaaaaaa'',
      fq_record_data = Some (subject_record_data scenario_env ''app.bsky.feed.like''
        ''at://did:plc:alice/app.bsky.feed.post/3maj3nlms2227'' ''bafyreihello''
        (Some 1766332800000002)),
      fq_operation = ''create'', fq_status = ''failed'', fq_attempts = 5,
      fq_last_error = Some ''fetch failed'', fq_created_at = 1766332000000000\<rparr>"

definition bob_follow :: follow_row where
  "bob_follow =
     \<lparr>follow_id = 300, follow_follower_id = 2, follow_following_id = Some 1,
      follow_rkey = Some ''3maj4cccccccc'',
      follow_at_uri = Some ''at://did:plc:bob/app.bsky.graph.follow/3maj4cccccccc'',
      follow_subject_did = Some ''did:plc:alice'', follow_created_at = Some 1766332800000005\<rparr>"

definition failed_post_entry :: fq_row where
  "failed_post_entry =
     \<lparr>fq_record_type = ''post'', fq_record_id = 10, fq_user_did = Some ''did:plc:alice'',
      fq_collection = ''app.bsky.feed.post'', fq_rkey = Some ''3maj3nlms2227'',
      fq_at_uri = Some ''at://did:plc:alice/app.bsky.feed.post/3maj3nlms2227'',
      fq_record_data = Some (JObj [(''$type'', JStr ''app.bsky.feed.post''),
                                   (''text'', JStr ''Hello'')]),
      fq_operation = ''create'', fq_status = ''failed'', fq_attempts = 5,
      fq_last_error = Some ''fetch failed'', fq_created_at = 1766332000000000\<rparr>"

definition scenario_db :: db where
  "scenario_db =
     \<lparr>profiles = [1 \<mapsto> alice, 2 \<mapsto> bob],
      posts = [10 \<mapsto> hello_post, 11 \<mapsto> unconfirmed_post],
      likes = [100 \<mapsto> bob_like, 101 \<mapsto> early_like],
      reposts = [200 \<mapsto> bob_repost],
      follows = [300 \<mapsto> bob_follow],
      federation_queue = [failed_like_entry, failed_post_entry]\<rparr>"

subsection \<open>Event Ingester: \<open>process-jetstream-event\<close>\<close>

text \<open>
  \<^verbatim>\<open>supabase/functions/process-jetstream-event/index.ts\<close>. The tables the function reads
  and writes are lists of rows; \<open>maybeSingle()\<close> gives the row when exactly one matches and
  \<open>null\<close> otherwise (no row, or the error for several rows, which the callers log and turn
  into \<open>null\<close>). The profile the public API returns for an actor and the error an insert
  into \<open>notifications\<close> may return are parameters of the call.
\<close>

datatype reason = Like | Repost | Reply | Quote | Follow

record ingest_profile =
  ip_id :: uuid
  ip_did :: "string option"

record ingest_post =
  ipost_id :: uuid
  ipost_user_id :: uuid
  ipost_content :: string
  ipost_atproto_uri :: "string option"

record notification =
  n_user_id :: uuid
  n_reason :: "reason option"
  n_post_id :: "uuid option"
  n_is_external :: bool
  n_actor_did :: "string option"
  n_actor_handle :: "string option"
  n_actor_display_name :: "string option"
  n_actor_avatar :: "string option"
  n_is_read :: bool
  n_created_at :: string

record ingest_db =
  idb_profiles :: "ingest_profile list"
  idb_posts :: "ingest_post list"
  idb_notifications :: "notification list"

record actor_profile =
  ap_handle :: "string option"
  ap_displayName :: "string option"
  ap_avatar :: "string option"

record ingest_env =
  getActorProfile :: "string \<Rightarrow> actor_profile option"
  now_iso :: string
  notification_insert_error :: "notification \<Rightarrow> string option"

text \<open>
  The fields of \<open>event.record\<close> the handlers read through their type casts:
  \<open>subject?.uri\<close> (like, repost), \<open>subject\<close> as a string (follow),
  \<open>reply?.parent?.uri\<close> and \<open>embed?.record?.uri\<close> (post).
\<close>

record jetstream_record =
  rec_subject_uri :: "string option"
  rec_subject :: "string option"
  rec_reply_parent_uri :: "string option"
  rec_embed_record_uri :: "string option"

record jetstream_event =
  ev_actorDid :: string
  ev_collection :: string
  ev_operation :: string
  ev_record :: jetstream_record
  ev_rkey :: string
  ev_time_us :: int

datatype result = Created reason | NotCreated string

definition CANNECT_DOMAIN :: string where
  "CANNECT_DOMAIN = ''cannect.space''"

text \<open>\<open>String.prototype.includes\<close>\<close>

fun str_includes :: "string \<Rightarrow> string \<Rightarrow> bool" where
  "str_includes [] sub = (sub = [])"
| "str_includes (c # cs) sub = (take (length sub) (c # cs) = sub \<or> str_includes cs sub)"

definition maybeSingle :: "'a list \<Rightarrow> 'a option" where
  "maybeSingle rows = (case rows of [r] \<Rightarrow> Some r | _ \<Rightarrow> None)"

definition findUserByDid :: "ingest_db \<Rightarrow> string \<Rightarrow> ingest_profile option" where
  "findUserByDid d did = maybeSingle (filter (\<lambda>p. ip_did p = Some did) (idb_profiles d))"

definition findPostByUri :: "ingest_db \<Rightarrow> string \<Rightarrow> ingest_post option" where
  "findPostByUri d uri = maybeSingle (filter (\<lambda>p. ipost_atproto_uri p = Some uri) (idb_posts d))"

text \<open>JavaScript's \<open>a || b\<close> on optional strings: the empty string is falsy too.\<close>

definition or_else :: "string option \<Rightarrow> string \<Rightarrow> string" where
  "or_else a b = (case a of None \<Rightarrow> b | Some s \<Rightarrow> if s = [] then b else s)"

text \<open>The row \<open>createNotification\<close> inserts (\<open>insertData\<close>), with the actor's display fields.\<close>

definition insertData :: "ingest_env \<Rightarrow> uuid \<Rightarrow> string \<Rightarrow> reason \<Rightarrow> uuid option \<Rightarrow> notification" where
  "insertData e userId actorDid reason postId =
     (let actorProfile = getActorProfile e actorDid;
          actorHandle = or_else (case actorProfile of None \<Rightarrow> None | Some p \<Rightarrow> ap_handle p)
                          actorDid;
          actorName = or_else (case actorProfile of None \<Rightarrow> None | Some p \<Rightarrow> ap_displayName p)
                        actorHandle
      in \<lparr>n_user_id = userId, n_reason = Some reason, n_post_id = postId,
          n_is_external = True, n_actor_did = Some actorDid,
          n_actor_handle = Some actorHandle, n_actor_display_name = Some actorName,
          n_actor_avatar = (case actorProfile of
                              None \<Rightarrow> None
                            | Some p \<Rightarrow> (case ap_avatar p of
                                           None \<Rightarrow> None
                                         | Some a \<Rightarrow> if a = [] then None else Some a)),
          n_is_read = False, n_created_at = now_iso e\<rparr>)"

definition createNotification ::
  "ingest_env \<Rightarrow> ingest_db \<Rightarrow> uuid \<Rightarrow> string \<Rightarrow> reason \<Rightarrow> uuid option \<Rightarrow> result \<times> ingest_db" where
  "createNotification e d userId actorDid reason postId =
     (let existing = take 1 (filter (\<lambda>n. n_user_id n = userId \<and> n_reason n = Some reason
                                        \<and> n_actor_did n = Some actorDid \<and> n_is_external n)
                               (idb_notifications d))
      in if existing \<noteq> [] then (NotCreated ''duplicate'', d)
         else
           (case notification_insert_error e (insertData e userId actorDid reason postId) of
              Some message \<Rightarrow> (NotCreated message, d)
            | None \<Rightarrow>
                (Created reason,
                 d\<lparr>idb_notifications :=
                     idb_notifications d @ [insertData e userId actorDid reason postId]\<rparr>)))"

text \<open>The local user an acting identity resolves to, as the handlers compare it: \<open>actor?.id\<close>.\<close>

definition actor_user :: "ingest_db \<Rightarrow> jetstream_event \<Rightarrow> uuid option" where
  "actor_user d event = map_option ip_id (findUserByDid d (ev_actorDid event))"

definition processLike :: "ingest_env \<Rightarrow> ingest_db \<Rightarrow> jetstream_event \<Rightarrow> result \<times> ingest_db" where
  "processLike e d event =
     (case rec_subject_uri (ev_record event) of
        None \<Rightarrow> (NotCreated ''not cannect content'', d)
      | Some subjectUri \<Rightarrow>
          if subjectUri = [] \<or> \<not> str_includes subjectUri CANNECT_DOMAIN
          then (NotCreated ''not cannect content'', d)
          else
            (case findPostByUri d subjectUri of
               None \<Rightarrow> (NotCreated ''post not found'', d)
             | Some post \<Rightarrow>
                 if actor_user d event = Some (ipost_user_id post)
                 then (NotCreated ''self-like'', d)
                 else createNotification e d (ipost_user_id post) (ev_actorDid event) Like
                        (Some (ipost_id post))))"

definition processRepost :: "ingest_env \<Rightarrow> ingest_db \<Rightarrow> jetstream_event \<Rightarrow> result \<times> ingest_db" where
  "processRepost e d event =
     (case rec_subject_uri (ev_record event) of
        None \<Rightarrow> (NotCreated ''not cannect content'', d)
      | Some subjectUri \<Rightarrow>
          if subjectUri = [] \<or> \<not> str_includes subjectUri CANNECT_DOMAIN
          then (NotCreated ''not cannect content'', d)
          else
            (case findPostByUri d subjectUri of
               None \<Rightarrow> (NotCreated ''post not found'', d)
             | Some post \<Rightarrow>
                 if actor_user d event = Some (ipost_user_id post)
                 then (NotCreated ''self-repost'', d)
                 else createNotification e d (ipost_user_id post) (ev_actorDid event) Repost
                        (Some (ipost_id post))))"

text \<open>
  One of the two checks of \<open>processPost\<close>: the URI is present and names local content, the
  post is found, and the actor is not its owner. \<open>None\<close> is falling through to what follows.
\<close>

definition notifiable_post :: "ingest_db \<Rightarrow> jetstream_event \<Rightarrow> string option \<Rightarrow> ingest_post option" where
  "notifiable_post d event uri =
     (case uri of
        None \<Rightarrow> None
      | Some u \<Rightarrow>
          if u = [] \<or> \<not> str_includes u CANNECT_DOMAIN then None
          else (case findPostByUri d u of
                  None \<Rightarrow> None
                | Some post \<Rightarrow>
                    if actor_user d event \<noteq> Some (ipost_user_id post)
                    then Some post else None))"

definition processPost :: "ingest_env \<Rightarrow> ingest_db \<Rightarrow> jetstream_event \<Rightarrow> result \<times> ingest_db" where
  "processPost e d event =
     (case notifiable_post d event (rec_reply_parent_uri (ev_record event)) of
        Some post \<Rightarrow> createNotification e d (ipost_user_id post) (ev_actorDid event) Reply
                       (Some (ipost_id post))
      | None \<Rightarrow>
          (case notifiable_post d event (rec_embed_record_uri (ev_record event)) of
             Some post \<Rightarrow> createNotification e d (ipost_user_id post) (ev_actorDid event) Quote
                            (Some (ipost_id post))
           | None \<Rightarrow> (NotCreated ''not relevant'', d)))"

definition processFollow :: "ingest_env \<Rightarrow> ingest_db \<Rightarrow> jetstream_event \<Rightarrow> result \<times> ingest_db" where
  "processFollow e d event =
     (case rec_subject (ev_record event) of
        None \<Rightarrow> (NotCreated ''no subject'', d)
      | Some subjectDid \<Rightarrow>
          if subjectDid = [] then (NotCreated ''no subject'', d)
          else
            (case findUserByDid d subjectDid of
               None \<Rightarrow> (NotCreated ''target not cannect user'', d)
             | Some targetUser \<Rightarrow>
                 if actor_user d event = Some (ip_id targetUser)
                 then (NotCreated ''self-follow'', d)
                 else createNotification e d (ip_id targetUser) (ev_actorDid event) Follow None))"

text \<open>The request handler, for a \<open>POST\<close> whose body parses as an event.\<close>

definition process_event :: "ingest_env \<Rightarrow> ingest_db \<Rightarrow> jetstream_event \<Rightarrow> result \<times> ingest_db" where
  "process_event e d event =
     (if ev_operation event \<noteq> ''create'' then (NotCreated ''not create operation'', d)
      else if ev_collection event = ''app.bsky.feed.like'' then processLike e d event
      else if ev_collection event = ''app.bsky.feed.repost'' then processRepost e d event
      else if ev_collection event = ''app.bsky.feed.post'' then processPost e d event
      else if ev_collection event = ''app.bsky.graph.follow'' then processFollow e d event
      else (NotCreated ''unknown collection'', d))"

text \<open>
  A scenario for the ingester: Alice (local user 1) owns the posts 10 and 12; Carol is an
  identity of the network with no local profile, and likes first one post, then the other.
\<close>

definition ingest_scenario_env :: ingest_env where
  "ingest_scenario_env =
     \<lparr>getActorProfile = (\<lambda>did. None), now_iso = ''2025-12-24T10:00:00.000Z'',
      notification_insert_error = (\<lambda>n. None)\<rparr>"

definition hello_ipost :: ingest_post where
  "hello_ipost =
     \<lparr>ipost_id = 10, ipost_user_id = 1, ipost_content = ''Hello'',
      ipost_atproto_uri = Some ''at://alice.cannect.space/app.bsky.feed.post/3maj3nlms2227''\<rparr>"

definition again_ipost :: ingest_post where
  "again_ipost =
     \<lparr>ipost_id = 12, ipost_user_id = 1, ipost_content = ''Again'',
      ipost_atproto_uri = Some ''at://alice.cannect.space/app.bsky.feed.post/3maj3nlms2229''\<rparr>"

definition ingest_scenario_db :: ingest_db where
  "ingest_scenario_db =
     \<lparr>idb_profiles = [\<lparr>ip_id = 1, ip_did = Some ''did:plc:alice''\<rparr>],
      idb_posts = [hello_ipost, again_ipost],
      idb_notifications = []\<rparr>"

definition like_event :: "string \<Rightarrow> string \<Rightarrow> string \<Rightarrow> jetstream_event" where
  "like_event actor rkey uri =
     \<lparr>ev_actorDid = actor, ev_collection = ''app.bsky.feed.like'', ev_operation = ''create'',
      ev_record = \<lparr>rec_subject_uri = Some uri, rec_subject = None,
                   rec_reply_parent_uri = None, rec_embed_record_uri = None\<rparr>,
      ev_rkey = rkey, ev_time_us = 1766570400000000\<rparr>"

definition carol_likes_hello :: jetstream_event where
  "carol_likes_hello =
     like_event ''did:plc:carol'' ''3mak2aaaaaaaa''
       ''at://alice.cannect.space/app.bsky.feed.post/3maj3nlms2227''"

definition carol_likes_again :: jetstream_event where
  "carol_likes_again =
     like_event ''did:plc:carol'' ''3mak2bbbbbbbb''
       ''at://alice.cannect.space/app.bsky.feed.post/3maj3nlms2229''"


definition carol_like_notification :: notification where
  "carol_like_notification =
     \<lparr>n_user_id = 1, n_reason = Some Like, n_post_id = Some 10, n_is_external = True,
      n_actor_did = Some ''did:plc:carol'', n_actor_handle = Some ''did:plc:carol'',
      n_actor_display_name = Some ''did:plc:carol'', n_actor_avatar = None, n_is_read = False,
      n_created_at = ''2025-12-24T10:00:00.000Z''\<rparr>"






subsection \<open>Feed Skeleton Service: the inclusion predicate\<close>

text \<open>
  \<^verbatim>\<open>feed-logic.js\<close> (\<open>shouldIncludePost\<close>, \<open>CANNABIS_KEYWORDS\<close>, \<open>CANNABIS_REGEX\<close>). A string
  is the list of its characters; the keywords are ASCII, and a character outside ASCII
  is neither a word character nor equal to a keyword character under the \<open>i\<close> flag.
\<close>

definition CANNABIS_KEYWORDS :: "string list" where
  "CANNABIS_KEYWORDS =
     [''cannabis'', ''marijuana'', ''weed'', ''thc'', ''cbd'', ''sativa'', ''indica'',
      ''hybrid strain'',
      ''dispensary'', ''edible'', ''edibles'', ''joint'', ''blunt'', ''bong'', ''dab'',
      ''dabbing'', ''dabs'', ''vape cart'', ''vape pen'',
      ''420'', ''4/20'', ''stoner'', ''stoned'', ''high af'', ''wake and bake'',
      ''kush'', ''strain'', ''strains'', ''terpene'', ''terpenes'', ''terps'', ''concentrates'',
      ''flower'', ''pre-roll'', ''preroll'', ''live rosin'', ''live resin'', ''hash'', ''hashish'',
      ''medical marijuana'', ''mmj'', ''medical cannabis'',
      ''cannabusiness'', ''cannabis industry'', ''grow op'', ''cultivation'', ''grower'']"

text \<open>\<open>kw.replace(/[.*+?^${}()|[\]\\]/g, '\\$&')\<close>: a backslash before each special character.\<close>

definition regex_special :: "char \<Rightarrow> bool" where
  "regex_special c = (c \<in> set ''.*+?^${}()|[]'' \<or> c = CHR 0x5C)"

definition regex_escape :: "string \<Rightarrow> string" where
  "regex_escape kw = concat (map (\<lambda>c. if regex_special c then [CHR 0x5C, c] else [c]) kw)"

definition keywordPatterns :: "string list" where
  "keywordPatterns = map regex_escape CANNABIS_KEYWORDS"

text \<open>
  \<open>new RegExp('\\b(' + keywordPatterns.join('|') + ')\\b', 'i').test(text)\<close>. No pattern
  holds a special character (\<open>keywordPatterns_plain\<close> below), so each alternative is a
  literal. \<open>\w\<close> is \<open>[A-Za-z0-9_]\<close>; \<open>\b\<close> holds at a position where exactly one of the
  characters before and after it is a word character (the ends of the string count as
  none); under the \<open>i\<close> flag two characters match when their upper-case forms are equal.
  The search tries every start position, and at each every alternative.
\<close>

definition is_word_char :: "char \<Rightarrow> bool" where
  "is_word_char c =
     (c \<in> set ''ABCDEFGHIJKLMNOPQRSTUVWXYZabcdefghijklmnopqrstuvwxyz0123456789_'')"

definition canonicalize :: "char \<Rightarrow> char" where
  "canonicalize c =
     (case map_of (zip ''abcdefghijklmnopqrstuvwxyz'' ''ABCDEFGHIJKLMNOPQRSTUVWXYZ'') c of
        Some u \<Rightarrow> u
      | None \<Rightarrow> c)"

definition word_boundary :: "string \<Rightarrow> nat \<Rightarrow> bool" where
  "word_boundary t i =
     ((0 < i \<and> i \<le> length t \<and> is_word_char (t ! (i - 1)))
        \<noteq> (i < length t \<and> is_word_char (t ! i)))"

text \<open>A literal against the text from some position on, character by character.\<close>

fun match_literal :: "string \<Rightarrow> string \<Rightarrow> bool" where
  "match_literal [] t = True"
| "match_literal (c # k) [] = False"
| "match_literal (c # k) (x # t) =
     (if canonicalize x = canonicalize c then match_literal k t else False)"

definition literal_at :: "string \<Rightarrow> string \<Rightarrow> nat \<Rightarrow> bool" where
  "literal_at k t i = match_literal k (drop i t)"

definition match_at :: "string list \<Rightarrow> string \<Rightarrow> nat \<Rightarrow> bool" where
  "match_at alts t i =
     (if word_boundary t i
      then list_ex (\<lambda>k. if literal_at k t i then word_boundary t (i + length k) else False) alts
      else False)"

definition regex_test :: "string list \<Rightarrow> string \<Rightarrow> bool" where
  "regex_test alts t = list_ex (match_at alts t) [0..<Suc (length t)]"

definition CANNABIS_REGEX_test :: "string \<Rightarrow> bool" where
  "CANNABIS_REGEX_test text = regex_test keywordPatterns text"

text \<open>\<open>String.prototype.endsWith\<close>\<close>

definition endsWith :: "string \<Rightarrow> string \<Rightarrow> bool" where
  "endsWith s suf = (length suf \<le> length s \<and> drop (length s - length suf) s = suf)"

record inclusion =
  inc_include :: bool
  inc_reason :: string

text \<open>An argument that is \<open>undefined\<close> or \<open>null\<close> is \<open>None\<close>; the empty string is falsy as well.\<close>

definition shouldIncludePost :: "string option \<Rightarrow> string option \<Rightarrow> inclusion" where
  "shouldIncludePost authorHandle text =
     (if (case authorHandle of None \<Rightarrow> False
          | Some h \<Rightarrow> h \<noteq> [] \<and> endsWith h ''.cannect.space'')
      then \<lparr>inc_include = True, inc_reason = ''cannect_user''\<rparr>
      else if (case text of None \<Rightarrow> False | Some t \<Rightarrow> t \<noteq> [] \<and> CANNABIS_REGEX_test t)
      then \<lparr>inc_include = True, inc_reason = ''keyword_match''\<rparr>
      else \<lparr>inc_include = False, inc_reason = ''no_match''\<rparr>)"

text \<open>
  The specification's wording, to compare with: a text contains a keyword as a whole word
  when it is some text, then the keyword in any letter case, then some text, and the
  keyword's neighbours on either side, if there are any, are not word characters.
\<close>

definition contains_whole_word :: "string \<Rightarrow> string \<Rightarrow> bool" where
  "contains_whole_word kw text =
     (\<exists>before w after. text = before @ w @ after
        \<and> map canonicalize w = map canonicalize kw
        \<and> \<not> (before \<noteq> [] \<and> is_word_char (last before))
        \<and> \<not> (after \<noteq> [] \<and> is_word_char (hd after)))"

definition mentions_cannabis :: "string \<Rightarrow> bool" where
  "mentions_cannabis text = (\<exists>kw \<in> set CANNABIS_KEYWORDS. contains_whole_word kw text)"

subsection \<open>Feed Skeleton Service: \<open>getFeedSkeleton\<close>\<close>

text \<open>
  \<^verbatim>\<open>scripts/feed-vps/index.js\<close>, the handler of \<open>/xrpc/app.bsky.feed.getFeedSkeleton\<close>.
  A query parameter is a string or absent. JavaScript numbers are taken as exact integers
  (\<open>NaN\<close> is \<open>None\<close>): the handler only compares, adds and prints them.
\<close>






















section \<open>Verification\<close>

subsection \<open>Record keys\<close>

lemma signed_take_bit_nonneg_self:
  fixes k :: int
  assumes "0 \<le> k" "k < 2 ^ n"
  shows "signed_take_bit n k = k"
proof (rule signed_take_bit_int_eq_self)
  have "- (2 ^ n) \<le> (0::int)" by simp
  then show "- (2 ^ n) \<le> k" using assms(1) by linarith
  show "k < 2 ^ n" by (rule assms(2))
qed

lemma mod_neg_shift:
  fixes x m :: int
  assumes "- m \<le> x" "x < 0"
  shows "x mod m = x + m"
proof -
  have "x mod m = (x + m) mod m" by simp
  also have "\<dots> = x + m"
    using assms by (intro mod_pos_pos_trivial) linarith+
  finally show ?thesis .
qed

lemma uint_mod32_sint: "uint w mod 32 = sint w mod 32" for w :: bigint
proof -
  have "uint w = sint w mod 2 ^ 64"
    by (simp add: uint_sint take_bit_eq_mod)
  then have "uint w mod 32 = (sint w mod 2 ^ 64) mod 32" by simp
  also have "\<dots> = sint w mod 32"
    by (rule mod_mod_cancel) simp
  finally show ?thesis .
qed

lemma digit_eq: "sint (ucast (w AND 31) :: integer32) = sint w mod 32" for w :: bigint
proof -
  have m: "(31 :: int) = mask 5" by (simp add: mask_eq_exp_minus_1)
  have u: "uint (w AND 31) = uint w mod 32"
    unfolding uint_and by (simp add: m flip: take_bit_eq_mask) (simp add: take_bit_eq_mod)
  have r: "0 \<le> uint w mod 32" "uint w mod 32 < 32" by simp_all
  have "sint (ucast (w AND 31) :: integer32) = signed_take_bit 31 (uint w mod 32)"
    by (simp add: signed_ucast_eq u)
  also have "\<dots> = uint w mod 32"
    using r by (intro signed_take_bit_int_eq_self) simp_all
  finally show ?thesis by (simp add: uint_mod32_sint)
qed

lemma key_eq: "sint w mod 2 ^ 65 = uint w + (if 2 ^ 63 \<le> uint w then 2 ^ 64 else 0)" for w :: bigint
proof -
  have b: "0 \<le> uint w" "uint w < 2 ^ 64"
    using uint_bounded [of w] by simp_all
  show ?thesis
  proof (cases "2 ^ 63 \<le> uint w")
    case False
    have "signed_take_bit 63 (uint w) = uint w"
      using False b by (intro signed_take_bit_nonneg_self) simp_all
    then have "sint w = uint w"
      by (simp add: sint_uint)
    then show ?thesis using False b by simp
  next
    case True
    have "take_bit (Suc 63) (uint w) = take_bit (Suc 63) (uint w - 2 ^ 64)"
      by (simp add: take_bit_eq_mod)
    then have "signed_take_bit 63 (uint w) = signed_take_bit 63 (uint w - 2 ^ 64)"
      by (simp only: signed_take_bit_eq_iff_take_bit_eq)
    also have "\<dots> = uint w - 2 ^ 64"
      using True b by (intro signed_take_bit_int_eq_self) simp_all
    finally have s: "sint w = uint w - 2 ^ 64" by (simp add: sint_uint)
    have "(uint w - 2 ^ 64) mod 2 ^ 65 = uint w - 2 ^ 64 + 2 ^ 65"
      using True b by (intro mod_neg_shift) simp_all
    then show ?thesis using True s by simp
  qed
qed

lemma comb_eq:
  fixes t :: bigint and c :: integer32
  assumes "uint t < 2 ^ 54" "uint c < 1024"
  shows "uint (push_bit 10 t OR scast c :: bigint) = uint t * 1024 + uint c"
proof -
  have "uint (push_bit 10 t) = take_bit 64 (push_bit 10 (uint t))"
    by (simp only: unsigned_push_bit_eq len_bit0 len_num1) simp
  also have "\<dots> = push_bit 10 (uint t)"
    using assms(1) by (intro take_bit_int_eq_self) (simp_all add: push_bit_eq_mult)
  finally have p: "uint (push_bit 10 t) = push_bit 10 (uint t)" .
  have "signed_take_bit 31 (uint c) = uint c"
    using assms(2) by (intro signed_take_bit_nonneg_self) simp_all
  then have sc: "sint c = uint c"
    by (simp add: sint_uint)
  have "uint (scast c :: bigint) = take_bit LENGTH(64) (sint c)"
    by (simp only: scast_eq uint_word_of_int_eq)
  also have "\<dots> = take_bit 64 (uint c)"
    by (simp only: sc) simp
  also have "\<dots> = uint c"
    using assms(2) by (intro take_bit_int_eq_self) simp_all
  also have "\<dots> = take_bit 10 (uint c)"
    using assms(2) by (intro take_bit_int_eq_self [symmetric]) simp_all
  finally have s: "uint (scast c :: bigint) = take_bit 10 (uint c)" .
  have "uint (push_bit 10 t OR scast c :: bigint) = take_bit 10 (uint c) OR push_bit 10 (uint t)"
    by (simp only: unsigned_or_eq p s or.commute)
  also have "\<dots> = take_bit 10 (uint c) + push_bit 10 (uint t)"
    by (simp add: concat_bit_eq flip: concat_bit_def)
  finally show ?thesis using assms(2) by (simp add: take_bit_int_eq_self push_bit_eq_mult)
qed

lemma length_b32_chars: "length b32_chars = 32"
  by (simp add: b32_chars_def)

lemma substr1_digit: "substr1 b32_chars (sint (ucast (w AND 31) :: integer32) + 1) = [b32_chars ! nat (sint w mod 32)]" for w :: bigint
proof -
  have "0 \<le> sint w mod 32" "sint w mod 32 < 32" by simp_all
  then show ?thesis
    by (simp add: substr1_def digit_eq length_b32_chars)
qed

lemma tid_loop_enc: "tid_loop n w r = enc n (sint w) @ r"
proof (induction n arbitrary: w r)
  case 0
  show ?case by simp
next
  case (Suc n)
  have "sint (signed_drop_bit 5 w) = sint w div 32"
    by (simp add: sint_signed_drop_bit_eq drop_bit_eq_div)
  then show ?case
    by (simp add: Suc.IH substr1_digit)
qed

lemma length_enc: "length (enc n x) = n"
  by (induction n arbitrary: x) simp_all

lemma set_enc: "set (enc n x) \<subseteq> set b32_chars"
proof (induction n arbitrary: x)
  case 0
  show ?case by simp
next
  case (Suc n)
  have "0 \<le> x mod 32" "x mod 32 < 32" by simp_all
  then have "nat (x mod 32) < length b32_chars"
    by (simp add: length_b32_chars)
  then have "b32_chars ! nat (x mod 32) \<in> set b32_chars"
    by (rule nth_mem)
  then show ?case using Suc.IH [of "x div 32"] by simp
qed

lemma b32_chars_sorted: "sorted_wrt (<) b32_chars"
  by (simp add: b32_chars_def less_char_def)

lemma b32_chars_mono:
  assumes "i < j" "j < 32"
  shows "b32_chars ! i < b32_chars ! j"
  using b32_chars_sorted assms by (simp add: sorted_wrt_iff_nth_less length_b32_chars)

lemma enc_cong: "x mod 32 ^ n = y mod 32 ^ n \<Longrightarrow> enc n x = enc n y"
proof (induction n arbitrary: x y)
  case 0
  show ?case by simp
next
  case (Suc n)
  have e: "x mod (32 * 32 ^ n) = y mod (32 * 32 ^ n)" using Suc.prems by simp
  have "x mod (32 * 32 ^ n) mod 32 = x mod 32" "y mod (32 * 32 ^ n) mod 32 = y mod 32"
    by (simp_all add: mod_mod_cancel)
  then have m: "x mod 32 = y mod 32" using e by simp
  have "x mod (32 * 32 ^ n) div 32 = (x div 32) mod 32 ^ n"
       "y mod (32 * 32 ^ n) div 32 = (y div 32) mod 32 ^ n"
    by (simp_all add: div_mult2_eq' zmod_zmult2_eq)
  then have "(x div 32) mod 32 ^ n = (y div 32) mod 32 ^ n" using e by simp
  then have "enc n (x div 32) = enc n (y div 32)" by (rule Suc.IH)
  then show ?case using m by simp
qed

lemma enc_mono: "x mod 32 ^ n < y mod 32 ^ n \<Longrightarrow> enc n x < enc n y"
proof (induction n arbitrary: x y)
  case 0
  then show ?case by simp
next
  case (Suc n)
  let ?X = "x mod (32 * 32 ^ n)" and ?Y = "y mod (32 * 32 ^ n)"
  have lt: "?X < ?Y" using Suc.prems by simp
  have mx: "?X mod 32 = x mod 32" and my: "?Y mod 32 = y mod 32"
    by (simp_all add: mod_mod_cancel)
  have dx: "?X div 32 = (x div 32) mod 32 ^ n" and dy: "?Y div 32 = (y div 32) mod 32 ^ n"
    by (simp_all add: zmod_zmult2_eq)
  have sx: "?X = 32 * (?X div 32) + ?X mod 32" and sy: "?Y = 32 * (?Y div 32) + ?Y mod 32"
    by simp_all
  have bx: "0 \<le> x mod 32" "x mod 32 < 32" and by': "0 \<le> y mod 32" "y mod 32 < 32"
    by simp_all
  consider (hi) "?X div 32 < ?Y div 32" | (lo) "?X div 32 = ?Y div 32" "x mod 32 < y mod 32"
    using lt sx sy mx my bx by' by arith
  then show ?case
  proof cases
    case hi
    then have "enc n (x div 32) < enc n (y div 32)"
      unfolding dx dy by (rule Suc.IH)
    then have "(enc n (x div 32), enc n (y div 32)) \<in> lexord {(u, v). u < v}"
      by (simp add: list_less_def)
    then have "(enc n (x div 32) @ [b32_chars ! nat (x mod 32)],
                enc n (y div 32) @ [b32_chars ! nat (y mod 32)]) \<in> lexord {(u, v). u < v}"
      by (rule lexord_sufI) (simp add: length_enc)
    then show ?thesis by (simp add: list_less_def)
  next
    case lo
    have "enc n (x div 32) = enc n (y div 32)"
      using lo(1) unfolding dx dy by (rule enc_cong)
    moreover have "b32_chars ! nat (x mod 32) < b32_chars ! nat (y mod 32)"
      using lo(2) bx by' by (intro b32_chars_mono) simp_all
    ultimately show ?thesis
      by (simp add: list_less_def lexord_append_leftI)
  qed
qed

lemma generate_tid_length: "length (generate_tid timestamp_us clock_id) = 13"
  by (simp add: generate_tid_def tid_loop_enc length_enc)

lemma generate_tid_alphabet:
  "set (generate_tid timestamp_us clock_id) \<subseteq> set ''234567abcdefghijklmnopqrstuvwxyz''"
  using set_enc [of 13] by (simp add: generate_tid_def tid_loop_enc b32_chars_def)

lemma generate_tid_mono:
  assumes "uint t1 < uint t2" "uint t2 < 2 ^ 54" "uint c1 < 1024" "uint c2 < 1024"
  shows "generate_tid t1 c1 < generate_tid t2 c2"
proof -
  let ?w1 = "push_bit 10 t1 OR scast c1 :: bigint"
  let ?w2 = "push_bit 10 t2 OR scast c2 :: bigint"
  have u1: "uint ?w1 = uint t1 * 1024 + uint c1"
    using assms by (intro comb_eq) simp_all
  have u2: "uint ?w2 = uint t2 * 1024 + uint c2"
    using assms by (intro comb_eq) simp_all
  have "0 \<le> uint c2" by simp
  then have "uint ?w1 < uint ?w2"
    unfolding u1 u2 using assms(1,3) by linarith
  then have "sint ?w1 mod 2 ^ 65 < sint ?w2 mod 2 ^ 65"
    unfolding key_eq by (simp split: if_splits)
  then have "sint ?w1 mod 32 ^ 13 < sint ?w2 mod 32 ^ 13"
    by simp
  then have "enc 13 (sint ?w1) < enc 13 (sint ?w2)"
    by (rule enc_mono)
  then show ?thesis
    by (simp add: generate_tid_def tid_loop_enc)
qed

lemma nonneg_sint_uint:
  fixes w :: "'a::len word"
  assumes "0 \<le> sint w"
  shows "uint w = sint w"
proof -
  have "sint w < 2 ^ (LENGTH('a) - 1)" by (rule sint_lt)
  also have "(2 :: int) ^ (LENGTH('a) - 1) \<le> 2 ^ LENGTH('a)"
    by (rule power_increasing) simp_all
  finally have "take_bit LENGTH('a) (sint w) = sint w"
    using assms by (intro take_bit_int_eq_self)
  then show ?thesis by (simp add: uint_sint)
qed

text \<open>
  Claim C3 (as amended). Every string \<open>generate_tid\<close> returns has exactly 13 characters, all
  of them from the alphabet \<open>234567abcdefghijklmnopqrstuvwxyz\<close>, whatever the clock reads.
  For two microsecond timestamps \<open>0 \<le> t1 < t2 < 2 ^ 54\<close>, read as the signed \<open>BIGINT\<close>
  they are, and two 10-bit clock values \<open>0 \<le> c < 1024\<close>, the identifier of \<open>t1\<close> is
  lexicographically smaller than the identifier of \<open>t2\<close>.
\<close>

theorem generate_tid_sortable:
  "length (generate_tid t1 c1) = 13 \<and>
   set (generate_tid t1 c1) \<subseteq> set ''234567abcdefghijklmnopqrstuvwxyz'' \<and>
   (0 \<le> sint t1 \<and> sint t1 < sint t2 \<and> sint t2 < 2 ^ 54
      \<and> 0 \<le> sint c1 \<and> sint c1 < 1024 \<and> 0 \<le> sint c2 \<and> sint c2 < 1024
      \<longrightarrow> generate_tid t1 c1 < generate_tid t2 c2)"
proof -
  have "generate_tid t1 c1 < generate_tid t2 c2"
    if h: "0 \<le> sint t1" "sint t1 < sint t2" "sint t2 < 2 ^ 54"
      "0 \<le> sint c1" "sint c1 < 1024" "0 \<le> sint c2" "sint c2 < 1024"
  proof -
    have "0 \<le> sint t2" using h(1,2) by linarith
    then have "uint t1 = sint t1" "uint t2 = sint t2" "uint c1 = sint c1" "uint c2 = sint c2"
      using h(1,4,6) by (simp_all add: nonneg_sint_uint)
    then show ?thesis
      using h by (intro generate_tid_mono) simp_all
  qed
  then show ?thesis
    using generate_tid_length generate_tid_alphabet by blast
qed

theorem generate_tid_sortable_witness:
  "0 \<le> sint (1766332800000000 :: bigint) \<and>
   sint (1766332800000000 :: bigint) < sint (1766332800000001 :: bigint) \<and>
   sint (1766332800000001 :: bigint) < 2 ^ 54 \<and>
   0 \<le> sint (1023 :: integer32) \<and> sint (1023 :: integer32) < 1024 \<and>
   0 \<le> sint (0 :: integer32) \<and> sint (0 :: integer32) < 1024 \<and>
   length (generate_tid 1766332800000000 1023) = 13 \<and>
   generate_tid 1766332800000000 1023 < generate_tid 1766332800000001 0"
  using generate_tid_sortable [of 1766332800000000 1023 1766332800000001 0] by simp

text \<open>
  The ordering does not hold for every pair of \<open>BIGINT\<close> timestamps. At \<open>2 ^ 54\<close>
  microseconds the shift by 10 bits leaves the 64-bit range and wraps to 0, and the
  identifier falls back to the smallest one, below that of the microsecond before. A
  timestamp below zero has its sign bits encoded as the largest digits, and its identifier
  is above that of timestamp 0.
\<close>

theorem generate_tid_order_counterexample:
  "sint (2 ^ 54 - 1 :: bigint) < sint (2 ^ 54 :: bigint) \<and>
   0 \<le> sint (2 ^ 54 - 1 :: bigint) \<and>
   generate_tid (2 ^ 54) 0 = ''2222222222222'' \<and>
   \<not> generate_tid (2 ^ 54 - 1) 0 < generate_tid (2 ^ 54) 0 \<and>
   sint (- 1 :: bigint) < sint (0 :: bigint) \<and> sint (0 :: bigint) < 2 ^ 54 \<and>
   generate_tid (- 1) 5 = ''zzzzzzzzzzz27'' \<and> generate_tid 0 0 = ''2222222222222'' \<and>
   \<not> generate_tid (- 1) 5 < generate_tid 0 0"
  by code_simp

subsection \<open>The outbox key\<close>

lemma fq_key_reset [simp]:
  "fq_key (r\<lparr>fq_record_data := x, fq_status := s, fq_attempts := a, fq_last_error := l,
             fq_created_at := t\<rparr>) = fq_key r"
  by (simp add: fq_key_def)

lemma fq_key_new_fq_row [simp]:
  "fq_key (new_fq_row e rt rid did coll rk uri data oper st) = (rt, rid, oper)"
  by (simp add: fq_key_def new_fq_row_def)

lemma fq_key_new_fq_row_at [simp]:
  "fq_key (new_fq_row_at e rt rid did coll rk uri data oper st t) = (rt, rid, oper)"
  by (simp add: fq_key_def new_fq_row_at_def new_fq_row_def)

lemma fq_status_new_fq_row [simp]:
  "fq_status (new_fq_row e rt rid did coll rk uri data oper st) = st"
  by (simp add: new_fq_row_def)

lemma fq_upsert_keys:
  assumes "fq_upsert e b row q = Inr q'"
  shows "map fq_key q' = (if fq_key row \<in> fq_key ` set q then map fq_key q
                          else map fq_key q @ [fq_key row])"
proof -
  have "map fq_key (map (\<lambda>r. if fq_key r = fq_key row
            then r\<lparr>fq_record_data := (if b then fq_record_data row else fq_record_data r),
                   fq_status := ''pending'', fq_attempts := 0,
                   fq_last_error := None, fq_created_at := now e\<rparr>
            else r) q) = map fq_key q"
    by (induction q) simp_all
  then show ?thesis
    using assms by (auto simp: fq_upsert_def split: option.splits if_splits)
qed

lemma fq_upsert_unique:
  assumes "fq_upsert e b row q = Inr q'" "fq_unique q"
  shows "fq_unique q'"
  using assms(2) fq_upsert_keys [OF assms(1)]
  by (auto simp: fq_unique_def split: if_splits)

lemma fq_upsert_reset:
  assumes "fq_upsert e b row q = Inr q'" "fq_key row \<in> fq_key ` set q"
    "r \<in> set q'" "fq_key r = fq_key row"
  shows "fq_status r = ''pending'' \<and> fq_attempts r = 0 \<and> fq_last_error r = None"
  using assms by (auto simp: fq_upsert_def split: option.splits)

lemma fq_upsert_others:
  assumes "fq_upsert e b row q = Inr q'" "i < length q" "fq_key (q ! i) \<noteq> fq_key row"
  shows "q' ! i = q ! i"
  using assms by (auto simp: fq_upsert_def nth_append split: option.splits if_splits)

lemma fq_upsert_returns:
  "fq_insert_error e row = None \<Longrightarrow> \<exists>q'. fq_upsert e b row q = Inr q'"
  by (simp add: fq_upsert_def)

lemma fq_insert_Inr:
  "fq_insert e row q = Inr q' \<longleftrightarrow>
     fq_insert_error e row = None \<and> fq_key row \<notin> fq_key ` set q \<and> q' = q @ [row]"
  by (auto simp: fq_insert_def split: option.splits)

lemma fq_insert_unique:
  assumes "fq_insert e row q = Inr q'" "fq_unique q"
  shows "fq_unique q'"
  using assms by (auto simp: fq_insert_Inr fq_unique_def)

lemma fq_insert_conflict:
  "fq_key row \<in> fq_key ` set q \<Longrightarrow> \<exists>err. fq_insert e row q = Inl err"
  by (auto simp: fq_insert_def split: option.splits)

lemma exception_when_others_Inr:
  "exception_when_others block h = Inr r \<longleftrightarrow> block = Inr r \<or> (\<exists>err. block = Inl err) \<and> r = h"
  by (auto simp: exception_when_others_def split: sum.splits)

lemma exception_when_others_returns: "\<exists>r. exception_when_others block h = Inr r"
  by (simp add: exception_when_others_def split: sum.splits)

lemma federation_queue_posts_update [simp]:
  "federation_queue (case x of None \<Rightarrow> d | Some p \<Rightarrow> if c p then d\<lparr>posts := f p\<rparr> else d)
     = federation_queue d"
  by (simp split: option.splits)

lemma federation_queue_likes_update [simp]:
  "federation_queue (case x of None \<Rightarrow> d | Some p \<Rightarrow> d\<lparr>likes := f p\<rparr>) = federation_queue d"
  by (simp split: option.splits)

lemma federation_queue_reposts_update [simp]:
  "federation_queue (case x of None \<Rightarrow> d | Some p \<Rightarrow> d\<lparr>reposts := f p\<rparr>) = federation_queue d"
  by (simp split: option.splits)

lemma federation_queue_follows_update [simp]:
  "federation_queue (case x of None \<Rightarrow> d | Some p \<Rightarrow> d\<lparr>follows := f p\<rparr>) = federation_queue d"
  by (simp split: option.splits)

text \<open>A trigger that finds nothing to stage returns the row and leaves the database.\<close>

lemma stage_declines:
  assumes "declines d op"
  shows "stage e op d = Inr d"
proof (cases op)
  case (PostInsert r)
  then show ?thesis using assms by (simp add: queue_post_for_federation_def)
next
  case (PostDelete r)
  then show ?thesis using assms
    by (auto simp: queue_post_deletion_for_federation_def split: option.splits)
next
  case (LikeInsert r)
  then show ?thesis using assms
    by (auto simp: queue_like_for_federation_def exception_when_others_def
             split: option.splits prod.splits)
next
  case (LikeDelete r)
  then show ?thesis using assms
    by (auto simp: queue_unlike_for_federation_def exception_when_others_def
             split: option.splits)
next
  case (RepostInsert r)
  then show ?thesis using assms
    by (auto simp: queue_repost_for_federation_def exception_when_others_def
             split: option.splits prod.splits)
next
  case (RepostDelete r)
  then show ?thesis using assms
    by (auto simp: queue_unrepost_for_federation_def exception_when_others_def
             split: option.splits)
next
  case (FollowInsert r)
  then show ?thesis using assms
    by (auto simp: queue_follow_for_federation_def split: option.splits)
next
  case (FollowDelete r)
  then show ?thesis using assms
    by (auto simp: queue_unfollow_for_federation_def split: option.splits)
qed

lemma hashed_row_other [simp]:
  "rt \<noteq> ''like'' \<Longrightarrow> rt \<noteq> ''repost'' \<Longrightarrow>
   hashed_row (new_fq_row e rt rid did coll rk uri data oper st)"
  by (simp add: hashed_row_def new_fq_row_def)

lemma hashed_row_delete [simp]:
  "hashed_row (new_fq_row e rt rid did coll rk uri data ''delete'' st)"
  by (simp add: hashed_row_def new_fq_row_def)

lemma hashed_row_delete_at [simp]:
  "hashed_row (new_fq_row_at e rt rid did coll rk uri data ''delete'' st t)"
  by (simp add: hashed_row_def new_fq_row_at_def new_fq_row_def)

lemma hashed_row_subject_at [simp]:
  "hashed_row (new_fq_row_at e rt rid did coll rk uri
     (Some (subject_record_data e type u c created)) oper st t)"
  by (simp add: hashed_row_def new_fq_row_at_def new_fq_row_def carries_subject_cid_def
      fq_subject_cid_def subject_record_data_def at_ref_json_def)

text \<open>
  What one firing of a post or follow trigger does to the outbox when it stages: one
  \<open>INSERT ... ON CONFLICT DO UPDATE\<close> under the key of the operation.
\<close>

lemma upsert_exI:
  assumes "fq_upsert e b (new_fq_row e rt rid did coll rk uri data oper ''pending'') q = Inr q'"
    "k = (rt, rid, oper)"
    "hashed_row (new_fq_row e rt rid did coll rk uri data oper ''pending'')"
    "\<not> b \<longrightarrow> oper \<noteq> ''create''"
  shows "\<exists>b row. fq_key row = k \<and> fq_status row = ''pending'' \<and> hashed_row row
           \<and> (\<not> b \<longrightarrow> fq_operation row \<noteq> ''create'')
           \<and> fq_upsert e b row q = Inr q'"
  using assms
  by (intro exI [of _ b] exI [of _ "new_fq_row e rt rid did coll rk uri data oper ''pending''"])
     (simp add: new_fq_row_def fq_key_def)

lemma stage_upserts:
  assumes "stage e op d = Inr d'" "\<not> declines d op" "on_conflict_update op"
  shows "\<exists>b row. fq_key row = op_key op \<and> fq_status row = ''pending'' \<and> hashed_row row
           \<and> (\<not> b \<longrightarrow> fq_operation row \<noteq> ''create'')
           \<and> fq_upsert e b row (federation_queue d) = Inr (federation_queue d')"
proof (cases op)
  case (PostInsert r)
  then show ?thesis using assms
    by (auto intro!: upsert_exI simp: queue_post_for_federation_def Let_def
             split: option.splits sum.splits)
next
  case (PostDelete r)
  then show ?thesis using assms
    by (auto intro!: upsert_exI simp: queue_post_deletion_for_federation_def
             split: option.splits sum.splits)
next
  case (FollowInsert r)
  then show ?thesis using assms
    by (auto intro!: upsert_exI simp: queue_follow_for_federation_def Let_def
             split: option.splits sum.splits)
next
  case (FollowDelete r)
  then show ?thesis using assms
    by (auto intro!: upsert_exI simp: queue_unfollow_for_federation_def
             split: option.splits sum.splits)
qed (use assms in simp_all)

text \<open>
  What one firing of a like or repost trigger does to the outbox: nothing, or one plain
  \<open>INSERT\<close> of a row under the key of the operation.
\<close>

lemma insert_subject_exI:
  assumes "fq_insert e (new_fq_row_at e rt rid did coll rk uri
             (Some (subject_record_data e type u c created)) oper ''pending'' t) q = Inr q'"
    "k = (rt, rid, oper)"
  shows "\<exists>row. fq_key row = k \<and> hashed_row row \<and> fq_insert e row q = Inr q'"
  using assms
  by (intro exI [of _ "new_fq_row_at e rt rid did coll rk uri
         (Some (subject_record_data e type u c created)) oper ''pending'' t"]) simp

lemma insert_delete_exI:
  assumes "fq_insert e (new_fq_row_at e rt rid did coll rk uri data ''delete'' ''pending'' t) q
             = Inr q'"
    "k = (rt, rid, ''delete'')"
  shows "\<exists>row. fq_key row = k \<and> hashed_row row \<and> fq_insert e row q = Inr q'"
  using assms
  by (intro exI [of _ "new_fq_row_at e rt rid did coll rk uri data ''delete'' ''pending'' t"]) simp

lemma stage_inserts:
  assumes "stage e op d = Inr d'" "\<not> on_conflict_update op"
  shows "d' = d \<or> (\<exists>row. fq_key row = op_key op \<and> hashed_row row
           \<and> fq_insert e row (federation_queue d) = Inr (federation_queue d'))"
proof (cases op)
  case (LikeInsert r)
  then show ?thesis using assms
    by (auto intro!: insert_subject_exI simp: queue_like_for_federation_def Let_def
             exception_when_others_def split: option.splits sum.splits prod.splits)
next
  case (LikeDelete r)
  then show ?thesis using assms
    by (auto intro!: insert_delete_exI simp: queue_unlike_for_federation_def
             exception_when_others_def split: option.splits sum.splits)
next
  case (RepostInsert r)
  then show ?thesis using assms
    by (auto intro!: insert_subject_exI simp: queue_repost_for_federation_def Let_def
             exception_when_others_def split: option.splits sum.splits prod.splits)
next
  case (RepostDelete r)
  then show ?thesis using assms
    by (auto intro!: insert_delete_exI simp: queue_unrepost_for_federation_def
             exception_when_others_def split: option.splits sum.splits)
qed (use assms in simp_all)

lemma stage_unique:
  assumes "stage e op d = Inr d'" "fq_unique (federation_queue d)"
  shows "fq_unique (federation_queue d')"
proof (cases "on_conflict_update op")
  case True
  show ?thesis
  proof (cases "declines d op")
    case True
    then show ?thesis using assms stage_declines [of d op e] by simp
  next
    case False
    then obtain b row where "fq_upsert e b row (federation_queue d) = Inr (federation_queue d')"
      using stage_upserts [OF assms(1) _ \<open>on_conflict_update op\<close>] by blast
    then show ?thesis using assms(2) by (rule fq_upsert_unique)
  qed
next
  case False
  then show ?thesis
    using stage_inserts [OF assms(1)] assms(2) fq_insert_unique by blast
qed

lemma stage_all_unique:
  "fq_unique (federation_queue d) \<Longrightarrow> fq_unique (federation_queue (stage_all ops d))"
proof (induction ops arbitrary: d)
  case Nil
  then show ?case by simp
next
  case (Cons a ops)
  obtain e op where a: "a = (e, op)" by (cases a)
  show ?case
  proof (cases "stage e op d")
    case (Inl err)
    then show ?thesis using Cons a by simp
  next
    case (Inr d')
    then have "fq_unique (federation_queue d')"
      using Cons.prems by (rule stage_unique)
    then show ?thesis using Cons.IH Inr a by simp
  qed
qed

text \<open>A post or follow trigger returns when the table raises nothing.\<close>

lemma stage_on_conflict_returns:
  assumes "fq_insert_error e = (\<lambda>r. None)" "on_conflict_update op"
  shows "\<exists>d'. stage e op d = Inr d'"
proof (cases op)
  case (PostInsert r)
  then show ?thesis using assms(1)
    by (auto simp: queue_post_for_federation_def Let_def fq_upsert_def split: option.splits)
next
  case (PostDelete r)
  then show ?thesis using assms(1)
    by (auto simp: queue_post_deletion_for_federation_def fq_upsert_def split: option.splits)
next
  case (FollowInsert r)
  then show ?thesis using assms(1)
    by (auto simp: queue_follow_for_federation_def Let_def fq_upsert_def split: option.splits)
next
  case (FollowDelete r)
  then show ?thesis using assms(1)
    by (auto simp: queue_unfollow_for_federation_def fq_upsert_def split: option.splits)
qed (use assms in simp_all)

text \<open>Re-staging through a post or follow trigger: the row of the key is reset, none is added.\<close>

lemma stage_restage:
  assumes "stage e op d = Inr d'" "\<not> declines d op" "on_conflict_update op"
    "op_key op \<in> fq_key ` set (federation_queue d)"
  shows "map fq_key (federation_queue d') = map fq_key (federation_queue d) \<and>
         (\<forall>r \<in> set (federation_queue d'). fq_key r = op_key op \<longrightarrow>
            fq_status r = ''pending'' \<and> fq_attempts r = 0 \<and> fq_last_error r = None) \<and>
         (\<forall>i < length (federation_queue d). fq_key (federation_queue d ! i) \<noteq> op_key op \<longrightarrow>
            federation_queue d' ! i = federation_queue d ! i)"
proof -
  obtain b row where k: "fq_key row = op_key op"
    and u: "fq_upsert e b row (federation_queue d) = Inr (federation_queue d')"
    using stage_upserts [OF assms(1,2,3)] by blast
  have "map fq_key (federation_queue d') = map fq_key (federation_queue d)"
    using fq_upsert_keys [OF u] assms(4) k by simp
  moreover have "\<forall>r \<in> set (federation_queue d'). fq_key r = op_key op \<longrightarrow>
      fq_status r = ''pending'' \<and> fq_attempts r = 0 \<and> fq_last_error r = None"
    using fq_upsert_reset [OF u] assms(4) k by simp
  moreover have "\<forall>i < length (federation_queue d).
      fq_key (federation_queue d ! i) \<noteq> op_key op \<longrightarrow>
      federation_queue d' ! i = federation_queue d ! i"
    using fq_upsert_others [OF u] k by simp
  ultimately show ?thesis by blast
qed

text \<open>
  Re-staging through a like or repost trigger: the plain \<open>INSERT\<close> meets the row of the key
  and raises, the handler returns the row, and the database is as it was.
\<close>

lemma stage_insert_conflict:
  assumes "\<not> on_conflict_update op" "op_key op \<in> fq_key ` set (federation_queue d)"
  shows "stage e op d = Inr d"
proof (cases "stage e op d")
  case (Inl err)
  then show ?thesis using assms(1)
    by (cases op)
       (simp_all add: queue_like_for_federation_def queue_unlike_for_federation_def
          queue_repost_for_federation_def queue_unrepost_for_federation_def
          exception_when_others_def split: sum.splits)
next
  case (Inr d')
  then have "d' = d"
    using stage_inserts [OF Inr assms(1)] assms(2) by (auto simp: fq_insert_Inr)
  then show ?thesis using Inr by simp
qed

lemma fq_upsert_hashed:
  assumes "fq_upsert e b row q = Inr q'" "subject_creates_hashed q" "hashed_row row"
    "\<not> b \<longrightarrow> fq_operation row \<noteq> ''create''"
  shows "subject_creates_hashed q'"
proof -
  have upd: "hashed_row (r\<lparr>fq_record_data := (if b then fq_record_data row else fq_record_data r),
                 fq_status := s, fq_attempts := a, fq_last_error := l, fq_created_at := t\<rparr>)"
    if "fq_key r = fq_key row" "hashed_row r" for r s a l t
    using that assms(3,4)
    by (auto simp: hashed_row_def fq_key_def carries_subject_cid_def fq_subject_cid_def)
  show ?thesis
    using assms(1,2,3) upd
    by (auto simp: fq_upsert_def subject_creates_hashed_def list_all_iff
             split: option.splits if_splits)
qed

lemma fq_insert_hashed:
  assumes "fq_insert e row q = Inr q'" "subject_creates_hashed q" "hashed_row row"
  shows "subject_creates_hashed q'"
  using assms by (auto simp: fq_insert_Inr subject_creates_hashed_def)

lemma stage_hashed:
  assumes "stage e op d = Inr d'" "subject_creates_hashed (federation_queue d)"
  shows "subject_creates_hashed (federation_queue d')"
proof (cases "on_conflict_update op")
  case True
  show ?thesis
  proof (cases "declines d op")
    case True
    then show ?thesis using assms stage_declines [of d op e] by simp
  next
    case False
    then obtain b row where "hashed_row row" "\<not> b \<longrightarrow> fq_operation row \<noteq> ''create''"
      "fq_upsert e b row (federation_queue d) = Inr (federation_queue d')"
      using stage_upserts [OF assms(1) _ \<open>on_conflict_update op\<close>] by blast
    then show ?thesis using assms(2) fq_upsert_hashed by blast
  qed
next
  case False
  then show ?thesis
    using stage_inserts [OF assms(1)] assms(2) fq_insert_hashed by blast
qed

lemma stage_all_hashed:
  "subject_creates_hashed (federation_queue d) \<Longrightarrow>
   subject_creates_hashed (federation_queue (stage_all ops d))"
proof (induction ops arbitrary: d)
  case Nil
  then show ?case by simp
next
  case (Cons a ops)
  obtain e op where a: "a = (e, op)" by (cases a)
  show ?case
  proof (cases "stage e op d")
    case (Inl err)
    then show ?thesis using Cons a by simp
  next
    case (Inr d')
    then have "subject_creates_hashed (federation_queue d')"
      using Cons.prems by (rule stage_hashed)
    then show ?thesis using Cons.IH Inr a by simp
  qed
qed

text \<open>
  Claim C1, on the triggers as the migrations leave them. Over every sequence of staging
  operations the outbox keeps \<open>(record_type, record_id, operation)\<close> unique. A post or
  follow trigger (insert or delete) that stages under a key already in the outbox returns,
  when the table raises nothing, and leaves the rows and their keys as they were, with the
  row of that key reset to \<open>status = 'pending'\<close>, \<open>attempts = 0\<close>, \<open>last_error = NULL\<close>.
  A like, unlike, repost or unrepost trigger fired for a key already in the outbox leaves
  the whole database as it was: its plain \<open>INSERT\<close> raises on the unique index, the
  handler returns the row, and the row of the key is not reset, where the claim has it
  reset.
\<close>

theorem federation_queue_restaging:
  "(fq_unique (federation_queue d) \<longrightarrow> fq_unique (federation_queue (stage_all ops d))) \<and>
   (on_conflict_update op \<and> fq_insert_error e = (\<lambda>r. None) \<and> \<not> declines d1 op
      \<and> op_key op \<in> fq_key ` set (federation_queue d1) \<longrightarrow>
    (case stage e op d1 of
       Inl err \<Rightarrow> False
     | Inr d2 \<Rightarrow>
         map fq_key (federation_queue d2) = map fq_key (federation_queue d1) \<and>
         (\<forall>r \<in> set (federation_queue d2). fq_key r = op_key op \<longrightarrow>
            fq_status r = ''pending'' \<and> fq_attempts r = 0 \<and> fq_last_error r = None))) \<and>
   (\<not> on_conflict_update op' \<and> op_key op' \<in> fq_key ` set (federation_queue d3) \<longrightarrow>
    stage e' op' d3 = Inr d3)"
proof (intro conjI impI)
  assume "fq_unique (federation_queue d)"
  then show "fq_unique (federation_queue (stage_all ops d))"
    by (rule stage_all_unique)
next
  assume a: "on_conflict_update op \<and> fq_insert_error e = (\<lambda>r. None) \<and> \<not> declines d1 op
      \<and> op_key op \<in> fq_key ` set (federation_queue d1)"
  then obtain d2 where s: "stage e op d1 = Inr d2"
    using stage_on_conflict_returns [of e op d1] by blast
  then show "case stage e op d1 of
       Inl err \<Rightarrow> False
     | Inr d2 \<Rightarrow>
         map fq_key (federation_queue d2) = map fq_key (federation_queue d1) \<and>
         (\<forall>r \<in> set (federation_queue d2). fq_key r = op_key op \<longrightarrow>
            fq_status r = ''pending'' \<and> fq_attempts r = 0 \<and> fq_last_error r = None)"
    using stage_restage [OF s] a by simp
next
  assume "\<not> on_conflict_update op' \<and> op_key op' \<in> fq_key ` set (federation_queue d3)"
  then show "stage e' op' d3 = Inr d3"
    using stage_insert_conflict by blast
qed

theorem federation_queue_restaging_witness:
  "fq_unique (federation_queue scenario_db) \<and>
   fq_unique (federation_queue
     (stage_all [(scenario_env, LikeInsert bob_like), (scenario_env, RepostInsert bob_repost),
                 (scenario_env, PostInsert hello_post), (scenario_env, LikeInsert bob_like)]
        scenario_db)) \<and>
   on_conflict_update (PostInsert hello_post) \<and> fq_insert_error scenario_env = (\<lambda>r. None) \<and>
   \<not> declines scenario_db (PostInsert hello_post) \<and>
   op_key (PostInsert hello_post) \<in> fq_key ` set (federation_queue scenario_db) \<and>
   (case stage scenario_env (PostInsert hello_post) scenario_db of
      Inl err \<Rightarrow> False
    | Inr d2 \<Rightarrow>
        map (\<lambda>r. (fq_key r, fq_status r, fq_attempts r, fq_last_error r)) (federation_queue d2)
          = [((''like'', 100, ''create''), ''failed'', 5, Some ''fetch failed''),
             ((''post'', 10, ''create''), ''pending'', 0, None)]) \<and>
   \<not> on_conflict_update (LikeInsert bob_like) \<and>
   op_key (LikeInsert bob_like) \<in> fq_key ` set (federation_queue scenario_db) \<and>
   stage scenario_env (LikeInsert bob_like) scenario_db = Inr scenario_db \<and>
   map (\<lambda>r. (fq_key r, fq_status r, fq_attempts r, fq_last_error r))
       (federation_queue scenario_db)
     = [((''like'', 100, ''create''), ''failed'', 5, Some ''fetch failed''),
        ((''post'', 10, ''create''), ''failed'', 5, Some ''fetch failed'')]"
proof -
  have q: "map (\<lambda>r. (fq_key r, fq_status r, fq_attempts r, fq_last_error r))
       (federation_queue scenario_db)
     = [((''like'', 100, ''create''), ''failed'', 5, Some ''fetch failed''),
        ((''post'', 10, ''create''), ''failed'', 5, Some ''fetch failed'')]"
    by (simp add: scenario_db_def failed_like_entry_def failed_post_entry_def fq_key_def)
  have u: "fq_unique (federation_queue scenario_db)"
    by (simp add: scenario_db_def fq_unique_def failed_like_entry_def failed_post_entry_def
        fq_key_def)
  have t: "fq_insert_error scenario_env = (\<lambda>r. None)"
    by (simp add: scenario_env_def)
  have n: "\<not> declines scenario_db (PostInsert hello_post)"
    by (simp add: scenario_db_def hello_post_def alice_def did_of_def)
  have k: "op_key (PostInsert hello_post) \<in> fq_key ` set (federation_queue scenario_db)"
    "op_key (LikeInsert bob_like) \<in> fq_key ` set (federation_queue scenario_db)"
    by (simp_all add: scenario_db_def hello_post_def bob_like_def failed_like_entry_def
        failed_post_entry_def fq_key_def)
  have p: "case stage scenario_env (PostInsert hello_post) scenario_db of
      Inl err \<Rightarrow> False
    | Inr d2 \<Rightarrow>
        map (\<lambda>r. (fq_key r, fq_status r, fq_attempts r, fq_last_error r)) (federation_queue d2)
          = [((''like'', 100, ''create''), ''failed'', 5, Some ''fetch failed''),
             ((''post'', 10, ''create''), ''pending'', 0, None)]"
    by (simp add: queue_post_for_federation_def scenario_db_def scenario_env_def hello_post_def
        alice_def bob_def did_of_def fq_upsert_def new_fq_row_def fq_key_def
        failed_like_entry_def failed_post_entry_def replace_char_def Let_def)
  have o: "on_conflict_update (PostInsert hello_post)" "\<not> on_conflict_update (LikeInsert bob_like)"
    by simp_all
  show ?thesis
    using q u t n k p o
      federation_queue_restaging [of scenario_db
        "[(scenario_env, LikeInsert bob_like), (scenario_env, RepostInsert bob_repost),
          (scenario_env, PostInsert hello_post), (scenario_env, LikeInsert bob_like)]"
        "PostInsert hello_post" scenario_env scenario_db "LikeInsert bob_like" scenario_db
        scenario_env]
    by blast
qed

text \<open>
  Claim C2. When the subject of a like or a repost, resolved from the row and then from
  the \<open>posts\<close> table, lacks its remote address or its content hash, the trigger returns
  the row and leaves the database, and so the outbox, as it was. Over every sequence of
  staging operations, every like or repost \<open>create\<close> row of the outbox carries a content
  hash for its subject.
\<close>

theorem like_repost_not_staged_without_cid:
  "(fst (subject_of d (like_subject_uri l) (like_subject_cid l) (like_post_id l)) = None
      \<or> snd (subject_of d (like_subject_uri l) (like_subject_cid l) (like_post_id l)) = None
    \<longrightarrow> queue_like_for_federation e d l = Inr (l, d)) \<and>
   (fst (subject_of d (repost_subject_uri r) (repost_subject_cid r) (repost_post_id r)) = None
      \<or> snd (subject_of d (repost_subject_uri r) (repost_subject_cid r) (repost_post_id r)) = None
    \<longrightarrow> queue_repost_for_federation e d r = Inr (r, d)) \<and>
   (subject_creates_hashed (federation_queue d0) \<longrightarrow>
      subject_creates_hashed (federation_queue (stage_all ops d0)))"
proof -
  have "queue_like_for_federation e d l = Inr (l, d)"
    if "fst (subject_of d (like_subject_uri l) (like_subject_cid l) (like_post_id l)) = None
      \<or> snd (subject_of d (like_subject_uri l) (like_subject_cid l) (like_post_id l)) = None"
    using that
    by (auto simp: queue_like_for_federation_def exception_when_others_def
             split: option.splits prod.splits)
  moreover have "queue_repost_for_federation e d r = Inr (r, d)"
    if "fst (subject_of d (repost_subject_uri r) (repost_subject_cid r) (repost_post_id r)) = None
      \<or> snd (subject_of d (repost_subject_uri r) (repost_subject_cid r) (repost_post_id r)) = None"
    using that
    by (auto simp: queue_repost_for_federation_def exception_when_others_def
             split: option.splits prod.splits)
  ultimately show ?thesis
    using stage_all_hashed [of d0 ops] by blast
qed

theorem like_repost_not_staged_without_cid_witness:
  "snd (subject_of scenario_db (like_subject_uri early_like) (like_subject_cid early_like)
          (like_post_id early_like)) = None \<and>
   queue_like_for_federation scenario_env scenario_db early_like = Inr (early_like, scenario_db) \<and>
   snd (subject_of (scenario_db\<lparr>posts := Map.empty\<rparr>) (repost_subject_uri bob_repost)
          (repost_subject_cid bob_repost) (repost_post_id bob_repost)) = None \<and>
   queue_repost_for_federation scenario_env (scenario_db\<lparr>posts := Map.empty\<rparr>) bob_repost =
     Inr (bob_repost, scenario_db\<lparr>posts := Map.empty\<rparr>) \<and>
   subject_creates_hashed (federation_queue scenario_db) \<and>
   subject_creates_hashed (federation_queue
     (stage_all [(scenario_env, LikeInsert early_like), (scenario_env, RepostInsert bob_repost)]
        scenario_db))"
proof -
  have a: "snd (subject_of scenario_db (like_subject_uri early_like) (like_subject_cid early_like)
          (like_post_id early_like)) = None"
    by (simp add: subject_of_def at_ref_of_def scenario_db_def early_like_def
        unconfirmed_post_def)
  have b: "snd (subject_of (scenario_db\<lparr>posts := Map.empty\<rparr>) (repost_subject_uri bob_repost)
          (repost_subject_cid bob_repost) (repost_post_id bob_repost)) = None"
    by (simp add: subject_of_def at_ref_of_def bob_repost_def)
  have c: "subject_creates_hashed (federation_queue scenario_db)"
    by (simp add: subject_creates_hashed_def scenario_db_def hashed_row_def
        carries_subject_cid_def fq_subject_cid_def failed_like_entry_def failed_post_entry_def
        subject_record_data_def at_ref_json_def)
  show ?thesis
    using a b c
      like_repost_not_staged_without_cid [of scenario_db early_like scenario_env
        bob_repost scenario_db
        "[(scenario_env, LikeInsert early_like), (scenario_env, RepostInsert bob_repost)]"]
      like_repost_not_staged_without_cid [of "scenario_db\<lparr>posts := Map.empty\<rparr>" early_like
        scenario_env bob_repost scenario_db "[]"]
    by (simp del: stage_all.simps)
qed

text \<open>
  The like, unlike, repost and unrepost triggers always return their row: the handler
  catches whatever the block raises.
\<close>

lemma handled_triggers_return:
  "(\<exists>d'. queue_like_for_federation e d l = Inr (l, d')) \<and>
   (\<exists>d'. queue_unlike_for_federation e d l = Inr (l, d')) \<and>
   (\<exists>d'. queue_repost_for_federation e d r = Inr (r, d')) \<and>
   (\<exists>d'. queue_unrepost_for_federation e d r = Inr (r, d')) \<and>
   (\<exists>d'. queue_unrepost_for_federation_logged e d r = Inr (r, d'))"
proof -
  have h: "\<exists>d'. exception_when_others block (x, d) = Inr (x, d')"
    if "\<And>y. block = Inr y \<Longrightarrow> fst y = x" for block :: "string + ('a \<times> db)" and x d
    using that by (cases block) (auto simp: exception_when_others_def)
  have "\<exists>d'. queue_like_for_federation e d l = Inr (l, d')"
    unfolding queue_like_for_federation_def
    by (rule h) (auto simp: Let_def split: option.splits sum.splits prod.splits)
  moreover have "\<exists>d'. queue_unlike_for_federation e d l = Inr (l, d')"
    unfolding queue_unlike_for_federation_def
    by (rule h) (auto split: option.splits sum.splits)
  moreover have "\<exists>d'. queue_repost_for_federation e d r = Inr (r, d')"
    unfolding queue_repost_for_federation_def
    by (rule h) (auto simp: Let_def split: option.splits sum.splits prod.splits)
  moreover have "\<exists>d'. queue_unrepost_for_federation e d r = Inr (r, d')"
    unfolding queue_unrepost_for_federation_def
    by (rule h) (auto split: option.splits sum.splits)
  moreover have "\<exists>d'. queue_unrepost_for_federation_logged e d r = Inr (r, d')"
    unfolding queue_unrepost_for_federation_logged_def
    by (rule h) (auto split: option.splits sum.splits)
  ultimately show ?thesis by blast
qed

lemma scenario_did_of:
  "did_of scenario_db 1 = Some ''did:plc:alice''" "did_of scenario_db 2 = Some ''did:plc:bob''"
  "did_of scenario_db (Suc 0) = Some ''did:plc:alice''"
  by (simp_all add: did_of_def scenario_db_def alice_def bob_def)

lemma failing_env_raises:
  "fq_upsert failing_env b row q = Inl ''insert into federation_queue failed''"
  "fq_insert failing_env row q = Inl ''insert into federation_queue failed''"
  by (simp_all add: fq_upsert_def fq_insert_def failing_env_def)

text \<open>
  Claim C6 says that an error raised while staging never aborts the local mutation: the
  trigger returns \<open>NEW\<close>/\<open>OLD\<close> all the same. The post and follow triggers have no handler:
  when the insert into the outbox raises, the error leaves the function and aborts the
  statement, here for the insert of a post, the delete of a post, the insert of a follow
  and the delete of a follow. The like, unlike, repost and unrepost triggers, which have
  the handler, return their row on the same database, and leave it as it was.
\<close>

theorem staging_error_leaves_trigger:
  "queue_post_for_federation failing_env scenario_db hello_post
     = Inl ''insert into federation_queue failed'' \<and>
   queue_post_deletion_for_federation failing_env scenario_db hello_post
     = Inl ''insert into federation_queue failed'' \<and>
   queue_follow_for_federation failing_env scenario_db bob_follow
     = Inl ''insert into federation_queue failed'' \<and>
   queue_unfollow_for_federation failing_env scenario_db bob_follow
     = Inl ''insert into federation_queue failed'' \<and>
   queue_like_for_federation failing_env scenario_db bob_like = Inr (bob_like, scenario_db) \<and>
   queue_unlike_for_federation failing_env scenario_db bob_like = Inr (bob_like, scenario_db) \<and>
   queue_repost_for_federation failing_env scenario_db bob_repost
     = Inr (bob_repost, scenario_db) \<and>
   queue_unrepost_for_federation failing_env scenario_db bob_repost
     = Inr (bob_repost, scenario_db) \<and>
   queue_unrepost_for_federation_logged failing_env scenario_db bob_repost
     = Inr (bob_repost, scenario_db)"
proof (intro conjI)
  show "queue_post_for_federation failing_env scenario_db hello_post
     = Inl ''insert into federation_queue failed''"
    by (simp add: queue_post_for_federation_def scenario_did_of failing_env_raises
        hello_post_def Let_def)
  show "queue_post_deletion_for_federation failing_env scenario_db hello_post
     = Inl ''insert into federation_queue failed''"
    by (simp add: queue_post_deletion_for_federation_def scenario_did_of failing_env_raises
        hello_post_def)
  show "queue_follow_for_federation failing_env scenario_db bob_follow
     = Inl ''insert into federation_queue failed''"
    by (simp add: queue_follow_for_federation_def scenario_did_of failing_env_raises
        bob_follow_def Let_def)
  show "queue_unfollow_for_federation failing_env scenario_db bob_follow
     = Inl ''insert into federation_queue failed''"
    by (simp add: queue_unfollow_for_federation_def scenario_did_of failing_env_raises
        bob_follow_def)
  show "queue_like_for_federation failing_env scenario_db bob_like = Inr (bob_like, scenario_db)"
    by (simp add: queue_like_for_federation_def scenario_did_of failing_env_raises
        exception_when_others_def subject_of_def bob_like_def Let_def)
  show "queue_unlike_for_federation failing_env scenario_db bob_like
     = Inr (bob_like, scenario_db)"
    by (simp add: queue_unlike_for_federation_def scenario_did_of failing_env_raises
        exception_when_others_def bob_like_def)
  show "queue_repost_for_federation failing_env scenario_db bob_repost
     = Inr (bob_repost, scenario_db)"
    by (simp add: queue_repost_for_federation_def scenario_did_of failing_env_raises
        exception_when_others_def subject_of_def at_ref_of_def bob_repost_def Let_def)
       (simp add: scenario_db_def hello_post_def failing_env_raises)
  show "queue_unrepost_for_federation failing_env scenario_db bob_repost
     = Inr (bob_repost, scenario_db)"
    by (simp add: queue_unrepost_for_federation_def scenario_did_of failing_env_raises
        exception_when_others_def bob_repost_def)
  show "queue_unrepost_for_federation_logged failing_env scenario_db bob_repost
     = Inr (bob_repost, scenario_db)"
    by (simp add: queue_unrepost_for_federation_logged_def scenario_did_of failing_env_raises
        exception_when_others_def bob_repost_def)
qed

subsection \<open>Event Ingester\<close>

lemma n_user_id_insertData [simp]: "n_user_id (insertData e userId actorDid reason postId) = userId"
  by (simp add: insertData_def Let_def)

lemma n_post_id_insertData [simp]: "n_post_id (insertData e userId actorDid reason postId) = postId"
  by (simp add: insertData_def Let_def)


text \<open>
  What the duplicate check of \<open>createNotification\<close> compares: owner, reason and actor of an
  external notification. The post is not part of it.
\<close>

lemma createNotification_created_iff:
  "fst (createNotification e d userId actorDid reason postId) = Created reason \<longleftrightarrow>
   \<not> (\<exists>n \<in> set (idb_notifications d). n_user_id n = userId \<and> n_reason n = Some reason
          \<and> n_actor_did n = Some actorDid \<and> n_is_external n) \<and>
   notification_insert_error e (insertData e userId actorDid reason postId) = None"
proof -
  have f: "(filter P xs = []) = (\<not> (\<exists>x \<in> set xs. P x))" for P :: "notification \<Rightarrow> bool" and xs
    by (simp add: filter_empty_conv)
  show ?thesis
    by (auto simp: createNotification_def Let_def f split: option.splits)
qed













text \<open>
  Claim C4 has a notification created if and only if none exists under the same
  \<open>(owner, reason, actor, post)\<close>. The duplicate check of \<open>createNotification\<close> leaves the post
  out (\<open>createNotification_created_iff\<close>). Carol likes Alice's first post: a notification is
  created. The identical event again: none is added. Carol likes Alice's other post: the
  check finds the first notification and none is created for the other post.
\<close>

theorem notification_dedup_leaves_post_out:
  "process_event ingest_scenario_env ingest_scenario_db carol_likes_hello
     = (Created Like, ingest_scenario_db\<lparr>idb_notifications := [carol_like_notification]\<rparr>) \<and>
   process_event ingest_scenario_env
       (ingest_scenario_db\<lparr>idb_notifications := [carol_like_notification]\<rparr>) carol_likes_hello
     = (NotCreated ''duplicate'', ingest_scenario_db\<lparr>idb_notifications := [carol_like_notification]\<rparr>) \<and>
   process_event ingest_scenario_env
       (ingest_scenario_db\<lparr>idb_notifications := [carol_like_notification]\<rparr>) carol_likes_again
     = (NotCreated ''duplicate'', ingest_scenario_db\<lparr>idb_notifications := [carol_like_notification]\<rparr>)"
  by (simp add: process_event_def processLike_def createNotification_def insertData_def
      carol_likes_hello_def carol_likes_again_def like_event_def carol_like_notification_def
      ingest_scenario_env_def ingest_scenario_db_def hello_ipost_def again_ipost_def
      findPostByUri_def findUserByDid_def maybeSingle_def actor_user_def or_else_def
      CANNECT_DOMAIN_def Let_def)

subsection \<open>The inclusion predicate\<close>

lemma keywordPatterns_plain: "keywordPatterns = CANNABIS_KEYWORDS"
  by (simp add: keywordPatterns_def CANNABIS_KEYWORDS_def regex_escape_def regex_special_def)

lemma keywords_word_ends:
  "list_all (\<lambda>k. k \<noteq> [] \<and> is_word_char (hd k) \<and> is_word_char (last k)) CANNABIS_KEYWORDS"
  by code_simp

lemma canonicalize_word_char:
  assumes "canonicalize x = canonicalize y"
  shows "is_word_char x = is_word_char y"
proof -
  have w: "is_word_char (canonicalize c) = is_word_char c" for c
  proof (cases "map_of (zip ''abcdefghijklmnopqrstuvwxyz'' ''ABCDEFGHIJKLMNOPQRSTUVWXYZ'') c")
    case None
    then show ?thesis by (simp add: canonicalize_def)
  next
    case (Some u)
    then have "(c, u) \<in> set (zip ''abcdefghijklmnopqrstuvwxyz'' ''ABCDEFGHIJKLMNOPQRSTUVWXYZ'')"
      by (rule map_of_SomeD)
    then have "c \<in> set ''abcdefghijklmnopqrstuvwxyz''" "u \<in> set ''ABCDEFGHIJKLMNOPQRSTUVWXYZ''"
      by (auto dest: set_zip_leftD set_zip_rightD)
    then have "is_word_char c" "is_word_char u"
      by (auto simp: is_word_char_def)
    then show ?thesis using Some by (simp add: canonicalize_def)
  qed
  show ?thesis using w [of x] w [of y] assms by simp
qed

lemma match_literal_iff:
  "match_literal k t \<longleftrightarrow>
   length k \<le> length t \<and> map canonicalize (take (length k) t) = map canonicalize k"
  by (induction k t rule: match_literal.induct) auto

lemma literal_at_iff:
  assumes "i \<le> length t"
  shows "literal_at k t i \<longleftrightarrow>
         i + length k \<le> length t
         \<and> map canonicalize (take (length k) (drop i t)) = map canonicalize k"
  using assms by (auto simp: literal_at_def match_literal_iff)

lemma word_boundary_start:
  assumes "w \<noteq> []" "is_word_char (hd w)"
  shows "word_boundary (b @ w @ a) (length b) = (\<not> (b \<noteq> [] \<and> is_word_char (last b)))"
proof -
  have "(b @ w @ a) ! length b = hd w"
    using assms(1) by (simp add: nth_append hd_conv_nth)
  moreover have "(b @ w @ a) ! (length b - 1) = last b" if "b \<noteq> []"
    using that by (simp add: nth_append last_conv_nth)
  ultimately show ?thesis
    using assms by (auto simp: word_boundary_def)
qed

lemma word_boundary_end:
  assumes "w \<noteq> []" "is_word_char (last w)"
  shows "word_boundary (b @ w @ a) (length b + length w) = (\<not> (a \<noteq> [] \<and> is_word_char (hd a)))"
proof -
  have "length b + length w - 1 = length b + (length w - 1)"
    using assms(1) by (cases w) simp_all
  then have "(b @ w @ a) ! (length b + length w - 1) = (w @ a) ! (length w - 1)"
    by (simp only: nth_append_length_plus)
  also have "\<dots> = last w"
    using assms(1) by (simp add: nth_append last_conv_nth)
  finally have "(b @ w @ a) ! (length b + length w - 1) = last w" .
  moreover have "(b @ w @ a) ! (length b + length w) = hd a" if "a \<noteq> []"
    using that by (simp add: nth_append hd_conv_nth)
  ultimately show ?thesis
    using assms by (auto simp: word_boundary_def)
qed

lemma canonical_ends:
  assumes "map canonicalize w = map canonicalize k" "k \<noteq> []"
    "is_word_char (hd k)" "is_word_char (last k)"
  shows "w \<noteq> []" "is_word_char (hd w)" "is_word_char (last w)" "length w = length k"
proof -
  show l: "length w = length k" using assms(1) by (rule map_eq_imp_length_eq)
  then show n: "w \<noteq> []" using assms(2) by auto
  have "canonicalize (hd w) = canonicalize (hd k)"
    using assms(1,2) n by (metis hd_map)
  then show "is_word_char (hd w)" using assms(3) canonicalize_word_char by blast
  have "canonicalize (last w) = canonicalize (last k)"
    using assms(1,2) n by (metis last_map)
  then show "is_word_char (last w)" using assms(4) canonicalize_word_char by blast
qed

lemma whole_word_iff_match:
  assumes "k \<noteq> []" "is_word_char (hd k)" "is_word_char (last k)"
  shows "contains_whole_word k t \<longleftrightarrow>
         (\<exists>i \<le> length t. word_boundary t i \<and> literal_at k t i \<and> word_boundary t (i + length k))"
proof
  assume "contains_whole_word k t"
  then obtain b w a where t: "t = b @ w @ a" and c: "map canonicalize w = map canonicalize k"
    and s: "\<not> (b \<noteq> [] \<and> is_word_char (last b))" and e: "\<not> (a \<noteq> [] \<and> is_word_char (hd a))"
    by (auto simp: contains_whole_word_def)
  note w = canonical_ends [OF c assms]
  have "word_boundary t (length b)"
    unfolding t using word_boundary_start [OF w(1,2)] s by simp
  moreover have "literal_at k t (length b)"
    unfolding t using c w(4) by (simp add: literal_at_iff)
  moreover have "word_boundary t (length b + length k)"
    unfolding t using word_boundary_end [OF w(1,3), of b a] e w(4) by simp
  moreover have "length b \<le> length t" unfolding t by simp
  ultimately show "\<exists>i \<le> length t. word_boundary t i \<and> literal_at k t i
      \<and> word_boundary t (i + length k)"
    by blast
next
  assume "\<exists>i \<le> length t. word_boundary t i \<and> literal_at k t i \<and> word_boundary t (i + length k)"
  then obtain i where i: "i \<le> length t" and s: "word_boundary t i" and l: "literal_at k t i"
    and e: "word_boundary t (i + length k)"
    by blast
  let ?b = "take i t" and ?w = "take (length k) (drop i t)" and ?a = "drop (i + length k) t"
  have le: "i + length k \<le> length t" and c: "map canonicalize ?w = map canonicalize k"
    using l i by (simp_all add: literal_at_iff)
  have t: "t = ?b @ ?w @ ?a"
    by (metis add.commute append_take_drop_id drop_drop)
  have lb: "length ?b = i" using i by simp
  note w = canonical_ends [OF c assms]
  have "\<not> (?b \<noteq> [] \<and> is_word_char (last ?b))"
    using word_boundary_start [OF w(1,2), of ?b ?a] s t lb by simp
  moreover have "\<not> (?a \<noteq> [] \<and> is_word_char (hd ?a))"
    using word_boundary_end [OF w(1,3), of ?b ?a] e t lb w(4) by simp
  ultimately show "contains_whole_word k t"
    unfolding contains_whole_word_def using t c by blast
qed

lemma CANNABIS_REGEX_test_iff: "CANNABIS_REGEX_test t \<longleftrightarrow> mentions_cannabis t"
proof -
  have k: "k \<noteq> [] \<and> is_word_char (hd k) \<and> is_word_char (last k)" if "k \<in> set CANNABIS_KEYWORDS" for k
    using keywords_word_ends that by (simp add: list_all_iff)
  have "CANNABIS_REGEX_test t \<longleftrightarrow> (\<exists>i \<in> set [0..<Suc (length t)]. match_at CANNABIS_KEYWORDS t i)"
    by (simp only: CANNABIS_REGEX_test_def regex_test_def keywordPatterns_plain list_ex_iff)
  also have "\<dots> \<longleftrightarrow> (\<exists>i \<le> length t. match_at CANNABIS_KEYWORDS t i)"
  proof -
    have "set [0..<Suc (length t)] = {i. i \<le> length t}"
      by (simp only: set_upt) auto
    then show ?thesis by blast
  qed
  also have "\<dots> \<longleftrightarrow> (\<exists>k \<in> set CANNABIS_KEYWORDS. \<exists>i \<le> length t.
           word_boundary t i \<and> literal_at k t i \<and> word_boundary t (i + length k))"
    unfolding match_at_def list_ex_iff by (simp split: if_splits) blast
  also have "\<dots> \<longleftrightarrow> (\<exists>k \<in> set CANNABIS_KEYWORDS. contains_whole_word k t)"
    using k whole_word_iff_match by blast
  finally show ?thesis by (simp add: mentions_cannabis_def)
qed

lemma endsWith_iff: "endsWith s suf \<longleftrightarrow> (\<exists>front. s = front @ suf)"
proof
  assume "endsWith s suf"
  then have "s = take (length s - length suf) s @ suf"
    by (metis append_take_drop_id endsWith_def)
  then show "\<exists>front. s = front @ suf" ..
next
  assume "\<exists>front. s = front @ suf"
  then show "endsWith s suf" by (auto simp: endsWith_def)
qed

text \<open>
  Claim C7. \<open>shouldIncludePost\<close> includes a post exactly when the author's handle ends with
  \<open>.cannect.space\<close> or the text contains one of the keywords as a whole word, in any letter
  case. A handle with the suffix is included whatever the text is (reason
  \<open>cannect_user\<close>); another handle with a keyword in the text, such as the word
  "cannabis", is included by the keyword match; a post with neither is excluded.
\<close>

theorem shouldIncludePost_iff:
  "(inc_include (shouldIncludePost authorHandle text) \<longleftrightarrow>
      (\<exists>front. authorHandle = Some (front @ ''.cannect.space''))
      \<or> (\<exists>t. text = Some t \<and> mentions_cannabis t)) \<and>
   ((\<exists>front. authorHandle = Some (front @ ''.cannect.space'')) \<longrightarrow>
      shouldIncludePost authorHandle text = \<lparr>inc_include = True, inc_reason = ''cannect_user''\<rparr>) \<and>
   (\<not> (\<exists>front. authorHandle = Some (front @ ''.cannect.space''))
      \<and> (\<exists>t. text = Some t \<and> contains_whole_word ''cannabis'' t) \<longrightarrow>
      shouldIncludePost authorHandle text = \<lparr>inc_include = True, inc_reason = ''keyword_match''\<rparr>) \<and>
   (\<not> (\<exists>front. authorHandle = Some (front @ ''.cannect.space''))
      \<and> \<not> (\<exists>t. text = Some t \<and> mentions_cannabis t) \<longrightarrow>
      shouldIncludePost authorHandle text = \<lparr>inc_include = False, inc_reason = ''no_match''\<rparr>)"
proof -
  have h: "(case authorHandle of None \<Rightarrow> False | Some h \<Rightarrow> h \<noteq> [] \<and> endsWith h ''.cannect.space'')
      \<longleftrightarrow> (\<exists>front. authorHandle = Some (front @ ''.cannect.space''))"
    by (cases authorHandle) (auto simp: endsWith_iff)
  have "\<not> CANNABIS_REGEX_test []"
    by code_simp
  then have "\<not> mentions_cannabis []"
    by (simp add: CANNABIS_REGEX_test_iff)
  then have t: "(case text of None \<Rightarrow> False | Some t \<Rightarrow> t \<noteq> [] \<and> CANNABIS_REGEX_test t)
      \<longleftrightarrow> (\<exists>t. text = Some t \<and> mentions_cannabis t)"
    by (cases "text") (auto simp: CANNABIS_REGEX_test_iff)
  have c: "mentions_cannabis t" if "contains_whole_word ''cannabis'' t" for t
    using that by (auto simp: mentions_cannabis_def CANNABIS_KEYWORDS_def)
  show ?thesis
    unfolding shouldIncludePost_def h t using c by auto
qed

theorem shouldIncludePost_iff_witness:
  "shouldIncludePost (Some ''alice.cannect.space'') (Some ''Nice weather today'')
     = \<lparr>inc_include = True, inc_reason = ''cannect_user''\<rparr> \<and>
   contains_whole_word ''cannabis'' ''I love Cannabis!'' \<and>
   shouldIncludePost (Some ''bob.bsky.social'') (Some ''I love Cannabis!'')
     = \<lparr>inc_include = True, inc_reason = ''keyword_match''\<rparr> \<and>
   \<not> mentions_cannabis ''Nice weather today'' \<and>
   shouldIncludePost (Some ''bob.bsky.social'') (Some ''Nice weather today'')
     = \<lparr>inc_include = False, inc_reason = ''no_match''\<rparr>"
proof -
  have a: "\<exists>front. Some ''alice.cannect.space'' = Some (front @ ''.cannect.space'')"
    by (rule exI [of _ "''alice''"]) simp
  have "\<not> endsWith ''bob.bsky.social'' ''.cannect.space''"
    by (simp add: endsWith_def)
  then have b: "\<not> (\<exists>front. Some ''bob.bsky.social'' = Some (front @ ''.cannect.space''))"
    by (simp add: endsWith_iff)
  have "map canonicalize ''Cannabis'' = map canonicalize ''cannabis''"
    and "\<not> is_word_char (last ''I love '')" and "\<not> is_word_char (hd ''!'')"
    by code_simp+
  then have "''I love Cannabis!'' = ''I love '' @ ''Cannabis'' @ ''!''
      \<and> map canonicalize ''Cannabis'' = map canonicalize ''cannabis''
      \<and> \<not> (''I love '' \<noteq> [] \<and> is_word_char (last ''I love ''))
      \<and> \<not> (''!'' \<noteq> [] \<and> is_word_char (hd ''!''))"
    by simp
  then have c: "contains_whole_word ''cannabis'' ''I love Cannabis!''"
    unfolding contains_whole_word_def by blast
  have "\<not> CANNABIS_REGEX_test ''Nice weather today''"
    by code_simp
  then have n: "\<not> mentions_cannabis ''Nice weather today''"
    by (simp add: CANNABIS_REGEX_test_iff)
  show ?thesis
    using a b c n
      shouldIncludePost_iff [of "Some ''alice.cannect.space''" "Some ''Nice weather today''"]
      shouldIncludePost_iff [of "Some ''bob.bsky.social''" "Some ''I love Cannabis!''"]
      shouldIncludePost_iff [of "Some ''bob.bsky.social''" "Some ''Nice weather today''"]
    by simp
qed

subsection \<open>The feed skeleton\<close>













end
